theory Spec2Isabelle
  imports Main "HOL-Library.Word" "HOL-Library.Multiset"
begin

section \<open>PrivateCrowdfund: the encrypted contribution ledger\<close>

text \<open>
  A shallow embedding of \<^verbatim>\<open>src/contracts/PrivateCrowdfund.sol\<close>. Storage is a record,
  every external function is a function from the transaction context and the storage to
  either an error (the transaction reverts) or the new storage. Solidity's \<^verbatim>\<open>uint64\<close>
  is \<open>64 word\<close>, \<^verbatim>\<open>uint256\<close> is \<open>256 word\<close>; comparisons between the two widths are
  written on \<open>unat\<close>, which is what the implicit widening to \<^verbatim>\<open>uint256\<close> computes.
  Checked arithmetic (Solidity 0.8) reverts with a panic where the exact result does not
  fit; the one \<^verbatim>\<open>unchecked\<close> block wraps around.
\<close>

subsection \<open>Values\<close>

type_synonym address = nat
type_synonym uint64 = "64 word"
type_synonym uint256 = "256 word"

text \<open>
  Modelled from the spec: the FHE library (\<^verbatim>\<open>@fhevm/solidity/lib/FHE.sol\<close>) is an external
  dependency whose code is not part of the repository. The spec (sections 3 and 9)
  describes an encrypted amount as an opaque handle for a non-negative 64-bit quantity
  with homomorphic addition, greater-or-equal comparison and encoding of a plaintext,
  each producing a new handle. A handle is modelled as the term that produced it, so two
  handles are equal exactly when they were produced the same way, and an assignment
  copies the handle. \<open>EUninit\<close> and \<open>BUninit\<close> are the zero handles of storage that was
  never written. The access checks the library performs on the operands of an operation
  are not modelled: every operation returns.
\<close>

datatype euint64 =
    EUninit
  | EInput nat uint64
  | EPlain uint64
  | EAdd euint64 euint64

datatype ebool =
    BUninit
  | BPlain bool
  | BGe euint64 euint64

datatype handle = H64 euint64 | HBool ebool

text \<open>The ciphertext a client submits: an identifier and the amount it encrypts.\<close>

datatype externalEuint64 = External nat uint64

text \<open>The input proof, as the trusted verifier judges it.\<close>

datatype inputProof = ValidProof | InvalidProof

text \<open>
  Modelled from the spec: \<^verbatim>\<open>FHE.fromExternal\<close>, the trusted verifier that turns an
  external handle and its proof into an internal encrypted amount, and fails otherwise.
\<close>

fun FHE_fromExternal :: "externalEuint64 \<Rightarrow> inputProof \<Rightarrow> euint64 option" where
  "FHE_fromExternal (External i v) ValidProof = Some (EInput i v)"
| "FHE_fromExternal (External i v) InvalidProof = None"

text \<open>Modelled from the spec: \<^verbatim>\<open>FHE.add\<close>, \<^verbatim>\<open>FHE.ge\<close>, \<^verbatim>\<open>FHE.asEuint64\<close>, \<^verbatim>\<open>FHE.asEbool\<close>.\<close>

definition FHE_add :: "euint64 \<Rightarrow> euint64 \<Rightarrow> euint64" where
  "FHE_add a b = EAdd a b"

definition FHE_ge :: "euint64 \<Rightarrow> euint64 \<Rightarrow> ebool" where
  "FHE_ge a b = BGe a b"

definition FHE_asEuint64 :: "uint64 \<Rightarrow> euint64" where
  "FHE_asEuint64 v = EPlain v"

definition FHE_asEbool :: "bool \<Rightarrow> ebool" where
  "FHE_asEbool b = BPlain b"

text \<open>
  Modelled from the spec: what the decryption oracle returns for a handle. Addition is
  the addition of 64-bit quantities; a zero handle decrypts to zero (false).
\<close>

fun decrypt64 :: "euint64 \<Rightarrow> uint64" where
  "decrypt64 EUninit = 0"
| "decrypt64 (EInput i v) = v"
| "decrypt64 (EPlain v) = v"
| "decrypt64 (EAdd a b) = decrypt64 a + decrypt64 b"

fun decryptBool :: "ebool \<Rightarrow> bool" where
  "decryptBool BUninit = False"
| "decryptBool (BPlain b) = b"
| "decryptBool (BGe a b) = (decrypt64 b \<le> decrypt64 a)"

subsection \<open>Storage, context, events and errors\<close>

datatype event =
    Contributed address bool uint256
  | CampaignEnded bool uint256
  | GoalUpdated uint64 uint64
  | DeadlineExtended uint64 uint64

datatype error =
    NotOwner
  | CampaignExpired
  | CampaignAlreadyFinalized
  | InvalidGoal
  | InvalidDeadline
  | InvalidContributionLimits
  | NoContributions
  | Require string
  | Panic
  | InvalidInputProof

text \<open>
  The storage of the contract, with the three things of its surroundings that its
  functions change or read: the permission list of the FHE access control (\<open>acl\<close>), the
  log of emitted events and the log of the token transfers it caused. \<open>self\<close> is
  \<^verbatim>\<open>address(this)\<close> and \<open>oracleAddr\<close> is \<^verbatim>\<open>ZamaConfig.getSepoliaOracleAddress()\<close>.
\<close>

record cstate =
  owner :: address
  usdc :: address
  treasury :: address
  self :: address
  oracleAddr :: address
  fundingGoal :: uint64
  minContribution :: uint64
  maxContribution :: uint64
  deadline :: uint64
  totalRaisedEnc :: euint64
  lastGoalReachedCache :: ebool
  hasContributedMap :: "address \<Rightarrow> bool"
  contributionAmounts :: "address \<Rightarrow> euint64"
  contributorCount :: uint64
  totalInitialized :: bool
  campaignFinalized :: bool
  acl :: "(handle \<times> address) set"
  eventLog :: "event list"
  usdcTransfers :: "(address \<times> address \<times> uint256) list"

text \<open>
  The context of one transaction: \<^verbatim>\<open>msg.sender\<close>, \<^verbatim>\<open>block.timestamp\<close>, and the answer
  the token contract gives to \<^verbatim>\<open>transferFrom(from, to, amount)\<close> in this transaction.
\<close>

record env =
  msg_sender :: address
  block_timestamp :: uint256
  usdc_transferFrom :: "address \<Rightarrow> address \<Rightarrow> uint256 \<Rightarrow> bool"

definition FHE_allow :: "handle \<Rightarrow> address \<Rightarrow> cstate \<Rightarrow> cstate" where
  "FHE_allow h a s = s\<lparr>acl := insert (h, a) (acl s)\<rparr>"

definition emit :: "event \<Rightarrow> cstate \<Rightarrow> cstate" where
  "emit ev s = s\<lparr>eventLog := eventLog s @ [ev]\<rparr>"

subsection \<open>Modifiers\<close>

definition onlyOwner :: "env \<Rightarrow> cstate \<Rightarrow> error option" where
  "onlyOwner e s = (if msg_sender e \<noteq> owner s then Some NotOwner else None)"

definition campaignActive :: "env \<Rightarrow> cstate \<Rightarrow> error option" where
  "campaignActive e s =
     (if unat (deadline s) \<le> unat (block_timestamp e) then Some CampaignExpired
      else if campaignFinalized s then Some CampaignAlreadyFinalized
      else None)"

definition hasTotalInitialized :: "cstate \<Rightarrow> error option" where
  "hasTotalInitialized s = (if \<not> totalInitialized s then Some NoContributions else None)"

subsection \<open>Constructor\<close>

definition one_day :: nat where
  "one_day = 86400"

definition constructor ::
  "env \<Rightarrow> address \<Rightarrow> address \<Rightarrow> uint64 \<Rightarrow> uint64 \<Rightarrow> uint64 \<Rightarrow> uint64 \<Rightarrow> address \<Rightarrow> address
     \<Rightarrow> error + cstate" where
  "constructor e this orc goalMicro durationDays minContributionMicro maxContributionMicro
       usdcAddr treasuryAddr =
     (if goalMicro = 0 then Inl InvalidGoal
      else if durationDays = 0 then Inl InvalidDeadline
      else if minContributionMicro = 0
            \<or> unat maxContributionMicro < unat minContributionMicro
        then Inl InvalidContributionLimits
      else if \<not> (usdcAddr \<noteq> 0 \<and> treasuryAddr \<noteq> 0) then Inl (Require ''Invalid addresses'')
      else if 2 ^ 64 \<le> unat durationDays * one_day then Inl Panic
      else if 2 ^ 256 \<le> unat (block_timestamp e) + unat durationDays * one_day then Inl Panic
      else Inr \<lparr>
        owner = msg_sender e,
        usdc = usdcAddr,
        treasury = treasuryAddr,
        self = this,
        oracleAddr = orc,
        fundingGoal = goalMicro,
        minContribution = minContributionMicro,
        maxContribution = maxContributionMicro,
        deadline = of_nat (unat (block_timestamp e) + unat durationDays * one_day),
        totalRaisedEnc = EUninit,
        lastGoalReachedCache = BUninit,
        hasContributedMap = (\<lambda>a. False),
        contributionAmounts = (\<lambda>a. EUninit),
        contributorCount = 0,
        totalInitialized = False,
        campaignFinalized = False,
        acl = {},
        eventLog = [],
        usdcTransfers = [] \<rparr>)"

subsection \<open>Internal functions\<close>

definition updateGoalStatus :: "env \<Rightarrow> cstate \<Rightarrow> cstate" where
  "updateGoalStatus e s =
     (let s1 = (if \<not> totalInitialized s
                then s\<lparr>lastGoalReachedCache := FHE_asEbool False\<rparr>
                else (let goalEnc = FHE_asEuint64 (fundingGoal s)
                      in s\<lparr>lastGoalReachedCache := FHE_ge (totalRaisedEnc s) goalEnc\<rparr>));
          s2 = FHE_allow (HBool (lastGoalReachedCache s1)) (self s1) s1;
          s3 = FHE_allow (HBool (lastGoalReachedCache s2)) (owner s2) s2;
          s4 = FHE_allow (HBool (lastGoalReachedCache s3)) (msg_sender e) s3
      in FHE_allow (HBool (lastGoalReachedCache s4)) (oracleAddr s4) s4)"

definition setDecryptionPermissions :: "env \<Rightarrow> cstate \<Rightarrow> cstate" where
  "setDecryptionPermissions e s =
     (let s1 = FHE_allow (H64 (totalRaisedEnc s)) (self s) s;
          s2 = FHE_allow (H64 (totalRaisedEnc s1)) (owner s1) s1;
          s3 = FHE_allow (H64 (totalRaisedEnc s2)) (oracleAddr s2) s2
      in FHE_allow (H64 (contributionAmounts s3 (msg_sender e))) (msg_sender e) s3)"

subsection \<open>External functions\<close>

definition contributeUSDC ::
  "env \<Rightarrow> uint256 \<Rightarrow> externalEuint64 \<Rightarrow> inputProof \<Rightarrow> cstate \<Rightarrow> error + cstate" where
  "contributeUSDC e amount6 encHandle inputPrf s =
     (case campaignActive e s of
        Some err \<Rightarrow> Inl err
      | None \<Rightarrow>
        if \<not> 0 < amount6 then Inl (Require ''Amount cannot be zero'')
        else if \<not> (unat (minContribution s) \<le> unat amount6
                    \<and> unat amount6 \<le> unat (maxContribution s))
          then Inl (Require ''Amount outside bounds'')
        else if \<not> usdc_transferFrom e (msg_sender e) (treasury s) amount6
          then Inl (Require ''USDC transfer failed'')
        else
          (case FHE_fromExternal encHandle inputPrf of
             None \<Rightarrow> Inl InvalidInputProof
           | Some encAmount \<Rightarrow>
             (let s1 = s\<lparr>usdcTransfers :=
                          usdcTransfers s @ [(msg_sender e, treasury s, amount6)]\<rparr>;
                  s2 = (if \<not> totalInitialized s1
                        then s1\<lparr>totalRaisedEnc := encAmount, totalInitialized := True\<rparr>
                        else s1\<lparr>totalRaisedEnc := FHE_add (totalRaisedEnc s1) encAmount\<rparr>);
                  isFirstContribution = \<not> hasContributedMap s2 (msg_sender e);
                  s3 = (if isFirstContribution
                        then s2\<lparr>hasContributedMap := (hasContributedMap s2)(msg_sender e := True),
                                contributionAmounts :=
                                  (contributionAmounts s2)(msg_sender e := encAmount),
                                contributorCount := contributorCount s2 + 1\<rparr>
                        else s2\<lparr>contributionAmounts :=
                                  (contributionAmounts s2)(msg_sender e :=
                                     FHE_add (contributionAmounts s2 (msg_sender e)) encAmount)\<rparr>);
                  s4 = setDecryptionPermissions e s3;
                  s5 = emit (Contributed (msg_sender e) isFirstContribution (block_timestamp e)) s4
              in Inr (updateGoalStatus e s5))))"

definition checkGoalReached :: "env \<Rightarrow> cstate \<Rightarrow> error + cstate" where
  "checkGoalReached e s = Inr (updateGoalStatus e s)"

definition getLastGoalStatus :: "cstate \<Rightarrow> ebool" where
  "getLastGoalStatus s = lastGoalReachedCache s"

definition getTotalRaised :: "cstate \<Rightarrow> error + euint64" where
  "getTotalRaised s =
     (case hasTotalInitialized s of Some err \<Rightarrow> Inl err | None \<Rightarrow> Inr (totalRaisedEnc s))"

definition getContributionAmount :: "cstate \<Rightarrow> address \<Rightarrow> error + euint64" where
  "getContributionAmount s contributor =
     (if \<not> hasContributedMap s contributor then Inl (Require ''Address has not contributed'')
      else Inr (contributionAmounts s contributor))"

definition finalizeCampaign :: "env \<Rightarrow> cstate \<Rightarrow> error + cstate" where
  "finalizeCampaign e s =
     (if \<not> unat (deadline s) \<le> unat (block_timestamp e)
        then Inl (Require ''Campaign still active'')
      else if \<not> \<not> campaignFinalized s then Inl (Require ''Campaign already finalized'')
      else
        (let s1 = s\<lparr>campaignFinalized := True\<rparr>;
             goalMet = totalInitialized s1
         in Inr (emit (CampaignEnded goalMet (block_timestamp e)) s1)))"

definition updateGoal :: "env \<Rightarrow> uint64 \<Rightarrow> cstate \<Rightarrow> error + cstate" where
  "updateGoal e newGoalMicro s =
     (case onlyOwner e s of
        Some err \<Rightarrow> Inl err
      | None \<Rightarrow>
        (case campaignActive e s of
           Some err \<Rightarrow> Inl err
         | None \<Rightarrow>
           if newGoalMicro = 0 then Inl InvalidGoal
           else
             (let oldGoal = fundingGoal s;
                  s1 = s\<lparr>fundingGoal := newGoalMicro\<rparr>;
                  s2 = updateGoalStatus e s1
              in Inr (emit (GoalUpdated oldGoal newGoalMicro) s2))))"

definition extendDeadline :: "env \<Rightarrow> uint64 \<Rightarrow> cstate \<Rightarrow> error + cstate" where
  "extendDeadline e additionalDays s =
     (case onlyOwner e s of
        Some err \<Rightarrow> Inl err
      | None \<Rightarrow>
        if \<not> \<not> campaignFinalized s then Inl (Require ''Campaign already finalized'')
        else if additionalDays = 0 then Inl InvalidDeadline
        else if 2 ^ 64 \<le> unat additionalDays * one_day then Inl Panic
        else if 2 ^ 64 \<le> unat (deadline s) + unat additionalDays * one_day then Inl Panic
        else
          (let oldDeadline = deadline s;
               s1 = s\<lparr>deadline := deadline s + additionalDays * of_nat one_day\<rparr>
           in Inr (emit (DeadlineExtended oldDeadline (deadline s1)) s1)))"

definition grantPublicDecrypt :: "env \<Rightarrow> cstate \<Rightarrow> error + cstate" where
  "grantPublicDecrypt e s =
     (let s1 = FHE_allow (HBool (lastGoalReachedCache s)) (self s) s;
          s2 = FHE_allow (HBool (lastGoalReachedCache s1)) (owner s1) s1;
          s3 = FHE_allow (HBool (lastGoalReachedCache s2)) (oracleAddr s2) s2
      in if totalInitialized s3
         then (let s4 = FHE_allow (H64 (totalRaisedEnc s3)) (self s3) s3;
                   s5 = FHE_allow (H64 (totalRaisedEnc s4)) (owner s4) s4
               in Inr (FHE_allow (H64 (totalRaisedEnc s5)) (oracleAddr s5) s5))
         else Inr s3)"

definition hasContributed :: "cstate \<Rightarrow> address \<Rightarrow> bool" where
  "hasContributed s user = hasContributedMap s user"

definition isFinalized :: "cstate \<Rightarrow> bool" where
  "isFinalized s = campaignFinalized s"

definition isActive :: "env \<Rightarrow> cstate \<Rightarrow> bool" where
  "isActive e s = (unat (block_timestamp e) < unat (deadline s) \<and> \<not> campaignFinalized s)"

definition isInitialized :: "cstate \<Rightarrow> bool" where
  "isInitialized s = totalInitialized s"

subsection \<open>Transactions\<close>

text \<open>
  The state-changing entry points as one type of call. A transaction that reverts
  leaves the storage, the permission list and both logs as they were (\<open>commit\<close>); a
  history is a list of transactions, each with its own context (\<open>run\<close>).
\<close>

datatype call =
    ContributeUSDC uint256 externalEuint64 inputProof
  | CheckGoalReached
  | FinalizeCampaign
  | UpdateGoal uint64
  | ExtendDeadline uint64
  | GrantPublicDecrypt

fun exec :: "env \<Rightarrow> call \<Rightarrow> cstate \<Rightarrow> error + cstate" where
  "exec e (ContributeUSDC amount6 encHandle inputPrf) s = contributeUSDC e amount6 encHandle inputPrf s"
| "exec e CheckGoalReached s = checkGoalReached e s"
| "exec e FinalizeCampaign s = finalizeCampaign e s"
| "exec e (UpdateGoal g) s = updateGoal e g s"
| "exec e (ExtendDeadline d) s = extendDeadline e d s"
| "exec e GrantPublicDecrypt s = grantPublicDecrypt e s"

definition commit :: "cstate \<Rightarrow> error + cstate \<Rightarrow> cstate" where
  "commit s r = (case r of Inl err \<Rightarrow> s | Inr s' \<Rightarrow> s')"

definition step :: "cstate \<Rightarrow> env \<times> call \<Rightarrow> cstate" where
  "step s t = commit s (exec (fst t) (snd t) s)"

fun run :: "cstate \<Rightarrow> (env \<times> call) list \<Rightarrow> cstate" where
  "run s [] = s"
| "run s (t # ts) = run (step s t) ts"

subsection \<open>Observations on a history\<close>

text \<open>
  A transaction is an accepted contribution when it is a call of \<^verbatim>\<open>contributeUSDC\<close> that
  does not revert. \<open>acceptedBy x s ts\<close> counts the accepted contributions of the sender
  \<open>x\<close> in the history \<open>ts\<close> started in \<open>s\<close>.
\<close>

fun isContribution :: "call \<Rightarrow> bool" where
  "isContribution (ContributeUSDC a h p) = True"
| "isContribution c = False"

definition accepted :: "cstate \<Rightarrow> env \<times> call \<Rightarrow> bool" where
  "accepted s t =
     (isContribution (snd t)
      \<and> (case exec (fst t) (snd t) s of Inl err \<Rightarrow> False | Inr s' \<Rightarrow> True))"

fun acceptedBy :: "address \<Rightarrow> cstate \<Rightarrow> (env \<times> call) list \<Rightarrow> nat" where
  "acceptedBy x s [] = 0"
| "acceptedBy x s (t # ts) =
     (if accepted s t \<and> msg_sender (fst t) = x then 1 else 0) + acceptedBy x (step s t) ts"

text \<open>
  What the aggregate total decrypts to; before the first contribution there is no
  aggregate handle and the amount raised is zero.
\<close>

definition decryptedTotal :: "cstate \<Rightarrow> uint64" where
  "decryptedTotal s = (if totalInitialized s then decrypt64 (totalRaisedEnc s) else 0)"

subsection \<open>A concrete campaign\<close>

text \<open>
  The deployment example of the contract's header comment: a goal of 1000 USDC, 30
  days, contributions between 1 and 100 USDC, deployed at time 1000 by address 1. The
  contract is address 100, the oracle 200, the token 300 and the treasury 400.
\<close>

definition deployer :: env where
  "deployer = \<lparr>msg_sender = 1, block_timestamp = 1000, usdc_transferFrom = (\<lambda>f t a. True)\<rparr>"

definition campaign0 :: cstate where
  "campaign0 = \<lparr>
     owner = 1, usdc = 300, treasury = 400, self = 100, oracleAddr = 200,
     fundingGoal = 1000000000, minContribution = 1000000, maxContribution = 100000000,
     deadline = 2593000, totalRaisedEnc = EUninit, lastGoalReachedCache = BUninit,
     hasContributedMap = (\<lambda>a. False), contributionAmounts = (\<lambda>a. EUninit),
     contributorCount = 0, totalInitialized = False, campaignFinalized = False,
     acl = {}, eventLog = [], usdcTransfers = [] \<rparr>"

definition alice :: env where
  "alice = \<lparr>msg_sender = 7, block_timestamp = 2000, usdc_transferFrom = (\<lambda>f t a. True)\<rparr>"

definition bob :: env where
  "bob = \<lparr>msg_sender = 8, block_timestamp = 3000, usdc_transferFrom = (\<lambda>f t a. True)\<rparr>"

definition alicePays :: call where
  "alicePays = ContributeUSDC 5000000 (External 1 5000000) ValidProof"

definition bobPays :: call where
  "bobPays = ContributeUSDC 7000000 (External 2 7000000) ValidProof"

subsection \<open>Sequences of contributions\<close>

text \<open>
  A contribution request is the context of its transaction with the three arguments of
  \<^verbatim>\<open>contributeUSDC\<close>. \<open>contributeAll\<close> submits a list of them in order and stops at the
  first one that reverts, so its result is a storage exactly when every contribution of
  the list was accepted. \<open>encryptedAmount\<close> is the amount the submitted ciphertext
  encrypts.
\<close>

type_synonym contribution = "env \<times> uint256 \<times> externalEuint64 \<times> inputProof"

fun contributeAll :: "cstate \<Rightarrow> contribution list \<Rightarrow> error + cstate" where
  "contributeAll s [] = Inr s"
| "contributeAll s ((e, a, h, p) # cs) =
     (case contributeUSDC e a h p s of Inl err \<Rightarrow> Inl err | Inr s' \<Rightarrow> contributeAll s' cs)"

fun encryptedAmount :: "contribution \<Rightarrow> uint64" where
  "encryptedAmount (e, a, External i v, p) = v"

subsection \<open>Further concrete campaigns and callers\<close>

text \<open>
  \<open>wideCampaign\<close> is the campaign above deployed with the largest maximum contribution
  the constructor accepts; \<open>carol\<close> is a caller whose token transfer is declined;
  \<open>late\<close> acts at the deadline.
\<close>

definition wideCampaign :: cstate where
  "wideCampaign = campaign0\<lparr>maxContribution := 18446744073709551615\<rparr>"

definition aliceHalf :: contribution where
  "aliceHalf = (alice, 9223372036854775808, External 1 9223372036854775808, ValidProof)"

definition bobHalf :: contribution where
  "bobHalf = (bob, 9223372036854775808, External 2 9223372036854775808, ValidProof)"

definition carol :: env where
  "carol = \<lparr>msg_sender = 9, block_timestamp = 2000, usdc_transferFrom = (\<lambda>f t a. False)\<rparr>"

definition late :: env where
  "late = \<lparr>msg_sender = 7, block_timestamp = 2593000, usdc_transferFrom = (\<lambda>f t a. True)\<rparr>"

text \<open>
  \<open>aliceUnderstates\<close> is a contribution that transfers 5 USDC and encrypts 1 USDC.
\<close>

definition aliceUnderstates :: call where
  "aliceUnderstates = ContributeUSDC 5000000 (External 1 1000000) ValidProof"

text \<open>\<open>ownerEarly\<close> is the owner acting before the deadline.\<close>

definition ownerEarly :: env where
  "ownerEarly = \<lparr>msg_sender = 1, block_timestamp = 4000, usdc_transferFrom = (\<lambda>f t a. True)\<rparr>"

text \<open>\<open>ownerLate\<close> is the owner acting after the deadline.\<close>

definition ownerLate :: env where
  "ownerLate = \<lparr>msg_sender = 1, block_timestamp = 2600000, usdc_transferFrom = (\<lambda>f t a. True)\<rparr>"

subsection \<open>The goal status agrees with the aggregate\<close>

text \<open>
  The property of a storage that the goal is positive and the cached goal status decrypts
  to true exactly when the decrypted aggregate is at least the goal.
\<close>

definition goalKept :: "cstate \<Rightarrow> bool" where
  "goalKept s = (fundingGoal s \<noteq> 0
     \<and> decryptBool (lastGoalReachedCache s) = (fundingGoal s \<le> decryptedTotal s))"

section \<open>Basic facts\<close>

lemmas fhe_defs = FHE_allow_def emit_def FHE_add_def FHE_ge_def FHE_asEuint64_def FHE_asEbool_def

lemma constructor_campaign0:
  "constructor deployer 100 200 1000000000 30 1000000 100000000 300 400 = Inr campaign0"
  by (simp add: constructor_def deployer_def campaign0_def one_day_def)

lemma updateGoalStatus_frame:
  "owner (updateGoalStatus e s) = owner s"
  "usdc (updateGoalStatus e s) = usdc s"
  "treasury (updateGoalStatus e s) = treasury s"
  "self (updateGoalStatus e s) = self s"
  "oracleAddr (updateGoalStatus e s) = oracleAddr s"
  "fundingGoal (updateGoalStatus e s) = fundingGoal s"
  "minContribution (updateGoalStatus e s) = minContribution s"
  "maxContribution (updateGoalStatus e s) = maxContribution s"
  "deadline (updateGoalStatus e s) = deadline s"
  "totalRaisedEnc (updateGoalStatus e s) = totalRaisedEnc s"
  "hasContributedMap (updateGoalStatus e s) = hasContributedMap s"
  "contributionAmounts (updateGoalStatus e s) = contributionAmounts s"
  "contributorCount (updateGoalStatus e s) = contributorCount s"
  "totalInitialized (updateGoalStatus e s) = totalInitialized s"
  "campaignFinalized (updateGoalStatus e s) = campaignFinalized s"
  "eventLog (updateGoalStatus e s) = eventLog s"
  "usdcTransfers (updateGoalStatus e s) = usdcTransfers s"
  by (simp_all add: updateGoalStatus_def Let_def fhe_defs)

lemma updateGoalStatus_cache:
  "lastGoalReachedCache (updateGoalStatus e s) =
     (if \<not> totalInitialized s then BPlain False
      else BGe (totalRaisedEnc s) (EPlain (fundingGoal s)))"
  by (simp add: updateGoalStatus_def Let_def fhe_defs)

lemma updateGoalStatus_acl:
  "acl (updateGoalStatus e s) =
     acl s \<union> {(HBool (lastGoalReachedCache (updateGoalStatus e s)), a) | a.
                a \<in> {self s, owner s, msg_sender e, oracleAddr s}}"
  by (auto simp add: updateGoalStatus_def Let_def fhe_defs)

lemma setDecryptionPermissions_frame:
  "owner (setDecryptionPermissions e s) = owner s"
  "usdc (setDecryptionPermissions e s) = usdc s"
  "treasury (setDecryptionPermissions e s) = treasury s"
  "self (setDecryptionPermissions e s) = self s"
  "oracleAddr (setDecryptionPermissions e s) = oracleAddr s"
  "fundingGoal (setDecryptionPermissions e s) = fundingGoal s"
  "minContribution (setDecryptionPermissions e s) = minContribution s"
  "maxContribution (setDecryptionPermissions e s) = maxContribution s"
  "deadline (setDecryptionPermissions e s) = deadline s"
  "totalRaisedEnc (setDecryptionPermissions e s) = totalRaisedEnc s"
  "lastGoalReachedCache (setDecryptionPermissions e s) = lastGoalReachedCache s"
  "hasContributedMap (setDecryptionPermissions e s) = hasContributedMap s"
  "contributionAmounts (setDecryptionPermissions e s) = contributionAmounts s"
  "contributorCount (setDecryptionPermissions e s) = contributorCount s"
  "totalInitialized (setDecryptionPermissions e s) = totalInitialized s"
  "campaignFinalized (setDecryptionPermissions e s) = campaignFinalized s"
  "eventLog (setDecryptionPermissions e s) = eventLog s"
  "usdcTransfers (setDecryptionPermissions e s) = usdcTransfers s"
  by (simp_all add: setDecryptionPermissions_def Let_def fhe_defs)

lemma setDecryptionPermissions_acl:
  "acl (setDecryptionPermissions e s) =
     acl s \<union> {(H64 (totalRaisedEnc s), self s), (H64 (totalRaisedEnc s), owner s),
               (H64 (totalRaisedEnc s), oracleAddr s),
               (H64 (contributionAmounts s (msg_sender e)), msg_sender e)}"
  by (auto simp add: setDecryptionPermissions_def Let_def fhe_defs)

lemma contributeUSDC_InrD:
  assumes "contributeUSDC e a h p s = Inr s'"
  shows "campaignActive e s = None"
    and "0 < a"
    and "unat (minContribution s) \<le> unat a"
    and "unat a \<le> unat (maxContribution s)"
    and "usdc_transferFrom e (msg_sender e) (treasury s) a"
    and "\<exists>enc. FHE_fromExternal h p = Some enc"
  using assms unfolding contributeUSDC_def
  by (auto split: option.splits if_splits)

lemma contributeUSDC_InrI:
  assumes "campaignActive e s = None"
    and "0 < a"
    and "unat (minContribution s) \<le> unat a"
    and "unat a \<le> unat (maxContribution s)"
    and "usdc_transferFrom e (msg_sender e) (treasury s) a"
    and "FHE_fromExternal h p = Some enc"
  shows "\<exists>s'. contributeUSDC e a h p s = Inr s'"
  using assms unfolding contributeUSDC_def
  by (simp add: Let_def)

lemma contributeUSDC_frame:
  assumes "contributeUSDC e a h p s = Inr s'"
  shows "owner s' = owner s"
    and "usdc s' = usdc s"
    and "treasury s' = treasury s"
    and "self s' = self s"
    and "oracleAddr s' = oracleAddr s"
    and "fundingGoal s' = fundingGoal s"
    and "minContribution s' = minContribution s"
    and "maxContribution s' = maxContribution s"
    and "deadline s' = deadline s"
    and "campaignFinalized s' = campaignFinalized s"
  using assms unfolding contributeUSDC_def
  by (auto simp: Let_def updateGoalStatus_frame setDecryptionPermissions_frame emit_def
      split: option.splits if_splits)

lemma contributeUSDC_ledger:
  assumes "contributeUSDC e a h p s = Inr s'" and "FHE_fromExternal h p = Some enc"
  shows "totalInitialized s'"
    and "totalRaisedEnc s' =
          (if totalInitialized s then EAdd (totalRaisedEnc s) enc else enc)"
    and "hasContributedMap s' = (hasContributedMap s)(msg_sender e := True)"
    and "contributionAmounts s' = (contributionAmounts s)(msg_sender e :=
          (if hasContributedMap s (msg_sender e)
           then EAdd (contributionAmounts s (msg_sender e)) enc else enc))"
    and "contributorCount s' =
          (if hasContributedMap s (msg_sender e) then contributorCount s
           else contributorCount s + 1)"
    and "eventLog s' = eventLog s @
          [Contributed (msg_sender e) (\<not> hasContributedMap s (msg_sender e)) (block_timestamp e)]"
    and "usdcTransfers s' = usdcTransfers s @ [(msg_sender e, treasury s, a)]"
    and "lastGoalReachedCache s' = BGe (totalRaisedEnc s') (EPlain (fundingGoal s))"
  using assms unfolding contributeUSDC_def
  by (auto simp: Let_def updateGoalStatus_frame updateGoalStatus_cache
      setDecryptionPermissions_frame emit_def FHE_add_def
      split: option.splits if_splits)

lemma other_calls_ledger:
  assumes "exec e c s = Inr s'" and "\<not> isContribution c"
  shows "totalInitialized s' = totalInitialized s"
    and "totalRaisedEnc s' = totalRaisedEnc s"
    and "hasContributedMap s' = hasContributedMap s"
    and "contributionAmounts s' = contributionAmounts s"
    and "contributorCount s' = contributorCount s"
    and "usdcTransfers s' = usdcTransfers s"
  using assms
  by (cases c;
      auto simp: checkGoalReached_def finalizeCampaign_def updateGoal_def extendDeadline_def
        grantPublicDecrypt_def Let_def updateGoalStatus_frame emit_def FHE_allow_def
        split: option.splits if_splits)+

lemma exec_config:
  assumes "exec e c s = Inr s'"
  shows "owner s' = owner s"
    and "usdc s' = usdc s"
    and "treasury s' = treasury s"
    and "self s' = self s"
    and "oracleAddr s' = oracleAddr s"
    and "minContribution s' = minContribution s"
    and "maxContribution s' = maxContribution s"
  using assms
  by (cases c;
      auto simp: checkGoalReached_def finalizeCampaign_def updateGoal_def extendDeadline_def
        grantPublicDecrypt_def Let_def updateGoalStatus_frame emit_def FHE_allow_def
        contributeUSDC_frame
        split: option.splits if_splits)+

lemma step_totalInitialized:
  "totalInitialized (step s t) = (totalInitialized s \<or> accepted s t)"
proof (cases "exec (fst t) (snd t) s")
  case (Inl err)
  then show ?thesis by (simp add: step_def commit_def accepted_def)
next
  case (Inr s')
  show ?thesis
  proof (cases "isContribution (snd t)")
    case True
    then obtain a h p where c: "snd t = ContributeUSDC a h p"
      by (cases "snd t") auto
    with Inr have ok: "contributeUSDC (fst t) a h p s = Inr s'" by simp
    from contributeUSDC_InrD(6)[OF ok] obtain enc where "FHE_fromExternal h p = Some enc" ..
    from contributeUSDC_ledger(1)[OF ok this] Inr c show ?thesis
      by (simp add: step_def commit_def accepted_def)
  next
    case False
    with other_calls_ledger(1)[OF Inr] Inr show ?thesis
      by (simp add: step_def commit_def accepted_def)
  qed
qed

lemma step_hasContributedMap:
  "hasContributedMap (step s t) x =
     (hasContributedMap s x \<or> accepted s t \<and> msg_sender (fst t) = x)"
proof (cases "exec (fst t) (snd t) s")
  case (Inl err)
  then show ?thesis by (simp add: step_def commit_def accepted_def)
next
  case (Inr s')
  show ?thesis
  proof (cases "isContribution (snd t)")
    case True
    then obtain a h p where c: "snd t = ContributeUSDC a h p"
      by (cases "snd t") auto
    with Inr have ok: "contributeUSDC (fst t) a h p s = Inr s'" by simp
    from contributeUSDC_InrD(6)[OF ok] obtain enc where "FHE_fromExternal h p = Some enc" ..
    from contributeUSDC_ledger(3)[OF ok this] Inr c show ?thesis
      by (auto simp add: step_def commit_def accepted_def)
  next
    case False
    with other_calls_ledger(3)[OF Inr] Inr show ?thesis
      by (simp add: step_def commit_def accepted_def)
  qed
qed

lemma run_hasContributedMap:
  "hasContributedMap (run s ts) x = (hasContributedMap s x \<or> 0 < acceptedBy x s ts)"
  by (induction ts arbitrary: s) (auto simp: step_hasContributedMap)

lemma run_snoc: "run s (ts @ [t]) = step (run s ts) t"
  by (induction ts arbitrary: s) simp_all

lemma run_take_Suc:
  "i < length ts \<Longrightarrow> run s (take (Suc i) ts) = step (run s (take i ts)) (ts ! i)"
  by (simp add: take_Suc_conv_app_nth run_snoc)

lemma run_take_totalInitialized:
  "i \<le> length ts \<Longrightarrow>
   totalInitialized (run s (take i ts)) =
     (totalInitialized s \<or> (\<exists>j<i. accepted (run s (take j ts)) (ts ! j)))"
proof (induction i)
  case 0
  then show ?case by simp
next
  case (Suc i)
  then have "i < length ts" by simp
  with Suc show ?case
    by (auto simp: run_take_Suc step_totalInitialized less_Suc_eq)
qed

lemma alice_first: "\<exists>s'. contributeUSDC alice 5000000 (External 1 5000000) ValidProof campaign0 = Inr s'"
  by (rule contributeUSDC_InrI[where enc = "EInput 1 5000000"])
     (simp_all add: campaignActive_def campaign0_def alice_def)

lemma constructor_wideCampaign:
  "constructor deployer 100 200 1000000000 30 1000000 18446744073709551615 300 400
     = Inr wideCampaign"
  by (simp add: constructor_def deployer_def campaign0_def wideCampaign_def one_day_def)

lemma contributeUSDC_accept_iff:
  "(\<exists>s'. contributeUSDC e a h p s = Inr s') \<longleftrightarrow>
     campaignActive e s = None \<and> 0 < a \<and> unat (minContribution s) \<le> unat a
     \<and> unat a \<le> unat (maxContribution s)
     \<and> usdc_transferFrom e (msg_sender e) (treasury s) a
     \<and> (\<exists>enc. FHE_fromExternal h p = Some enc)"
  using contributeUSDC_InrD[of e a h p s] contributeUSDC_InrI[of e s a h p]
  by blast

lemma contributeUSDC_keeps_acceptance:
  assumes "contributeUSDC e a h p s = Inr s'"
  shows "(\<exists>x. contributeUSDC e2 a2 h2 p2 s' = Inr x) \<longleftrightarrow>
         (\<exists>x. contributeUSDC e2 a2 h2 p2 s = Inr x)"
  unfolding contributeUSDC_accept_iff campaignActive_def
  by (simp add: contributeUSDC_frame[OF assms])

lemma contributeAll_accept_iff:
  "(\<exists>s1. contributeAll s cs = Inr s1) \<longleftrightarrow>
     (\<forall>c \<in> set cs. \<exists>s'. contributeUSDC (fst c) (fst (snd c)) (fst (snd (snd c)))
                             (snd (snd (snd c))) s = Inr s')"
proof (induction cs arbitrary: s)
  case Nil
  then show ?case by simp
next
  case (Cons c cs)
  obtain e a h p where c: "c = (e, a, h, p)" by (cases c) auto
  show ?case
  proof (cases "contributeUSDC e a h p s")
    case (Inl err)
    then show ?thesis by (simp add: c)
  next
    case (Inr s')
    have "(\<exists>s1. contributeAll s (c # cs) = Inr s1) \<longleftrightarrow> (\<exists>s1. contributeAll s' cs = Inr s1)"
      by (simp add: c Inr)
    also have "\<dots> \<longleftrightarrow> (\<forall>c \<in> set cs. \<exists>x. contributeUSDC (fst c) (fst (snd c))
        (fst (snd (snd c))) (snd (snd (snd c))) s' = Inr x)"
      by (rule Cons.IH)
    also have "\<dots> \<longleftrightarrow> (\<forall>c \<in> set cs. \<exists>x. contributeUSDC (fst c) (fst (snd c))
        (fst (snd (snd c))) (snd (snd (snd c))) s = Inr x)"
      by (simp add: contributeUSDC_keeps_acceptance[OF Inr])
    finally show ?thesis by (simp add: c Inr)
  qed
qed

lemma contributeUSDC_decryptedTotal:
  assumes "contributeUSDC e a h p s = Inr s'"
  shows "decryptedTotal s' = decryptedTotal s + encryptedAmount (e, a, h, p)"
proof -
  from contributeUSDC_InrD(6)[OF assms] obtain enc where enc: "FHE_fromExternal h p = Some enc" ..
  then obtain i v where h: "h = External i v" and e: "enc = EInput i v"
    by (cases h; cases p) auto
  from contributeUSDC_ledger(1,2)[OF assms enc] show ?thesis
    by (simp add: decryptedTotal_def h e)
qed

lemma contributeAll_decryptedTotal:
  "contributeAll s cs = Inr s1 \<Longrightarrow>
   decryptedTotal s1 = decryptedTotal s + sum_list (map encryptedAmount cs)"
proof (induction cs arbitrary: s)
  case Nil
  then show ?case by simp
next
  case (Cons c cs)
  obtain e a h p where c: "c = (e, a, h, p)" by (cases c) auto
  from Cons.prems obtain s' where s': "contributeUSDC e a h p s = Inr s'"
    and rest: "contributeAll s' cs = Inr s1"
    by (auto simp: c split: sum.splits)
  from Cons.IH[OF rest] contributeUSDC_decryptedTotal[OF s'] show ?case
    by (simp add: c add.assoc)
qed

lemma unat_sum_list_word:
  "unat (sum_list (ws :: uint64 list)) = sum_list (map unat ws) mod 2 ^ 64"
proof (induction ws)
  case Nil
  then show ?case by simp
next
  case (Cons w ws)
  have "unat (w + sum_list ws) = (unat w + unat (sum_list ws)) mod 2 ^ 64"
    by (simp add: unat_word_ariths)
  also have "\<dots> = (unat w + sum_list (map unat ws) mod 2 ^ 64) mod 2 ^ 64"
    by (simp add: Cons.IH)
  also have "\<dots> = (unat w + sum_list (map unat ws)) mod 2 ^ 64"
    by (simp add: mod_add_right_eq)
  finally show ?case by simp
qed

lemma halves_accepted: "\<exists>s1. contributeAll wideCampaign [aliceHalf, bobHalf] = Inr s1"
  unfolding contributeAll_accept_iff
  by (simp add: aliceHalf_def bobHalf_def contributeUSDC_accept_iff campaignActive_def
      wideCampaign_def campaign0_def alice_def bob_def)

lemma contributeUSDC_out_of_bounds:
  assumes "unat a < unat (minContribution s) \<or> unat (maxContribution s) < unat a"
  shows "contributeUSDC e a h p s =
     (case campaignActive e s of Some err \<Rightarrow> Inl err
      | None \<Rightarrow> if \<not> 0 < a then Inl (Require ''Amount cannot be zero'')
                else Inl (Require ''Amount outside bounds''))"
proof -
  from assms have "\<not> (unat (minContribution s) \<le> unat a \<and> unat a \<le> unat (maxContribution s))"
    by auto
  then show ?thesis
    unfolding contributeUSDC_def by (simp split: option.splits)
qed

lemma campaignActive_cases:
  "campaignActive e s = None \<or> campaignActive e s = Some CampaignExpired
   \<or> campaignActive e s = Some CampaignAlreadyFinalized"
  by (simp add: campaignActive_def)

lemma campaignActive_token:
  "campaignActive (e\<lparr>usdc_transferFrom := f\<rparr>) s = campaignActive e s"
  by (simp add: campaignActive_def)

lemma contributeUSDC_transfer_failed:
  assumes "campaignActive e s = None" and "0 < a"
    and "unat (minContribution s) \<le> unat a" and "unat a \<le> unat (maxContribution s)"
    and "\<not> usdc_transferFrom e (msg_sender e) (treasury s) a"
  shows "contributeUSDC e a h p s = Inl (Require ''USDC transfer failed'')"
  using assms unfolding contributeUSDC_def by simp

lemma finalizeCampaign_Inr_iff:
  "finalizeCampaign e s = Inr s' \<longleftrightarrow>
     unat (deadline s) \<le> unat (block_timestamp e) \<and> \<not> campaignFinalized s
     \<and> s' = s\<lparr>campaignFinalized := True,
              eventLog := eventLog s @ [CampaignEnded (totalInitialized s) (block_timestamp e)]\<rparr>"
  by (auto simp: finalizeCampaign_def Let_def emit_def)

lemma updateGoal_frame:
  assumes "updateGoal e g s = Inr s'"
  shows "campaignFinalized s' = campaignFinalized s" and "deadline s' = deadline s"
  using assms
  by (auto simp: updateGoal_def Let_def emit_def updateGoalStatus_frame
      split: option.splits if_splits)

lemma extendDeadline_frame:
  assumes "extendDeadline e d s = Inr s'"
  shows "campaignFinalized s' = campaignFinalized s" and "\<not> campaignFinalized s"
  using assms
  by (auto simp: extendDeadline_def Let_def emit_def split: option.splits if_splits)

lemma grantPublicDecrypt_frame:
  assumes "grantPublicDecrypt e s = Inr s'"
  shows "campaignFinalized s' = campaignFinalized s" and "deadline s' = deadline s"
  using assms
  by (auto simp: grantPublicDecrypt_def Let_def FHE_allow_def split: if_splits)

lemma exec_campaignFinalized:
  assumes "exec e c s = Inr s'"
  shows "campaignFinalized s' =
     (campaignFinalized s \<or> c = FinalizeCampaign \<and> unat (deadline s) \<le> unat (block_timestamp e))"
proof (cases c)
  case (ContributeUSDC a h p)
  with assms show ?thesis by (simp add: contributeUSDC_frame)
next
  case CheckGoalReached
  with assms show ?thesis by (auto simp: checkGoalReached_def updateGoalStatus_frame)
next
  case FinalizeCampaign
  with assms show ?thesis by (auto simp: finalizeCampaign_Inr_iff)
next
  case (UpdateGoal g)
  with assms show ?thesis by (simp add: updateGoal_frame)
next
  case (ExtendDeadline d)
  with assms show ?thesis by (simp add: extendDeadline_frame)
next
  case GrantPublicDecrypt
  with assms show ?thesis by (simp add: grantPublicDecrypt_frame)
qed

lemma exec_deadline_finalized:
  assumes "exec e c s = Inr s'" and "campaignFinalized s"
  shows "deadline s' = deadline s"
proof (cases c)
  case (ContributeUSDC a h p)
  with assms show ?thesis by (simp add: contributeUSDC_frame)
next
  case CheckGoalReached
  with assms show ?thesis by (auto simp: checkGoalReached_def updateGoalStatus_frame)
next
  case FinalizeCampaign
  with assms show ?thesis by (auto simp: finalizeCampaign_Inr_iff)
next
  case (UpdateGoal g)
  with assms show ?thesis by (simp add: updateGoal_frame)
next
  case (ExtendDeadline d)
  with assms show ?thesis by (simp add: extendDeadline_frame)
next
  case GrantPublicDecrypt
  with assms show ?thesis by (simp add: grantPublicDecrypt_frame)
qed

lemma step_campaignFinalized:
  "campaignFinalized (step s t) =
     (campaignFinalized s
      \<or> snd t = FinalizeCampaign \<and> unat (deadline s) \<le> unat (block_timestamp (fst t)))"
proof (cases "exec (fst t) (snd t) s")
  case (Inl err)
  then have "snd t = FinalizeCampaign \<Longrightarrow> unat (deadline s) \<le> unat (block_timestamp (fst t))
      \<Longrightarrow> campaignFinalized s"
    by (auto simp: finalizeCampaign_def Let_def split: if_splits)
  with Inl show ?thesis by (auto simp: step_def commit_def)
next
  case (Inr s')
  with exec_campaignFinalized[OF Inr] show ?thesis by (simp add: step_def commit_def)
qed

lemma step_deadline_finalized:
  "campaignFinalized s \<Longrightarrow> deadline (step s t) = deadline s"
  by (cases "exec (fst t) (snd t) s")
     (simp_all add: step_def commit_def exec_deadline_finalized)

lemma run_finalized:
  "campaignFinalized s \<Longrightarrow> campaignFinalized (run s ts) \<and> deadline (run s ts) = deadline s"
proof (induction ts arbitrary: s)
  case Nil
  then show ?case by simp
next
  case (Cons t ts)
  from Cons.prems have "campaignFinalized (step s t)" "deadline (step s t) = deadline s"
    by (simp_all add: step_campaignFinalized step_deadline_finalized)
  with Cons.IH[of "step s t"] show ?case by simp
qed

lemma contributeUSDC_guard:
  "campaignActive e s = Some err \<Longrightarrow> contributeUSDC e a h p s = Inl err"
  by (simp add: contributeUSDC_def)

lemma updateGoal_guard:
  "updateGoal e g s =
     (if msg_sender e \<noteq> owner s then Inl NotOwner
      else case campaignActive e s of
             Some err \<Rightarrow> Inl err
           | None \<Rightarrow> if g = 0 then Inl InvalidGoal
                     else Inr (emit (GoalUpdated (fundingGoal s) g)
                            (updateGoalStatus e (s\<lparr>fundingGoal := g\<rparr>))))"
  by (simp add: updateGoal_def onlyOwner_def Let_def split: option.splits)

lemma finalize_late:
  "finalizeCampaign late campaign0 =
     Inr (campaign0\<lparr>campaignFinalized := True, eventLog := [CampaignEnded False 2593000]\<rparr>)"
  by (simp add: finalizeCampaign_def Let_def emit_def campaign0_def late_def)

lemma alice_accepted: "accepted campaign0 (alice, alicePays)"
  using alice_first by (auto simp: accepted_def alicePays_def)

lemma alice_step:
  "\<exists>s1. contributeUSDC alice 5000000 (External 1 5000000) ValidProof campaign0 = Inr s1
     \<and> run campaign0 [(alice, alicePays)] = s1"
  using alice_first by (auto simp: step_def commit_def alicePays_def)

lemma alice_again:
  "\<exists>s'. contributeUSDC alice 6000000 (External 3 6000000) ValidProof
           (run campaign0 [(alice, alicePays)]) = Inr s'"
proof -
  from alice_step obtain s1
    where s1: "contributeUSDC alice 5000000 (External 1 5000000) ValidProof campaign0 = Inr s1"
      and r: "run campaign0 [(alice, alicePays)] = s1" by blast
  note fr = contributeUSDC_frame[OF s1]
  show ?thesis unfolding r
    by (rule contributeUSDC_InrI[where enc = "EInput 3 6000000"])
       (simp_all add: campaignActive_def fr, simp_all add: campaign0_def alice_def)
qed

lemma contributeUSDC_form:
  assumes "contributeUSDC e a h p s = Inr s'"
  shows "\<exists>s3 ev. s' = updateGoalStatus e (emit ev (setDecryptionPermissions e s3))
      \<and> acl s3 = acl s \<and> self s3 = self s \<and> owner s3 = owner s
      \<and> oracleAddr s3 = oracleAddr s"
proof -
  from contributeUSDC_InrD[OF assms] obtain enc where c: "campaignActive e s = None" "0 < a"
    "unat (minContribution s) \<le> unat a" "unat a \<le> unat (maxContribution s)"
    "usdc_transferFrom e (msg_sender e) (treasury s) a" "FHE_fromExternal h p = Some enc"
    by blast
  show ?thesis
  proof (cases "totalInitialized s"; cases "hasContributedMap s (msg_sender e)")
    assume "totalInitialized s" "hasContributedMap s (msg_sender e)"
    with assms c show ?thesis
      unfolding contributeUSDC_def
      by (simp add: Let_def) (intro exI conjI, erule sym, simp_all)
  next
    assume "totalInitialized s" "\<not> hasContributedMap s (msg_sender e)"
    with assms c show ?thesis
      unfolding contributeUSDC_def
      by (simp add: Let_def) (intro exI conjI, erule sym, simp_all)
  next
    assume "\<not> totalInitialized s" "hasContributedMap s (msg_sender e)"
    with assms c show ?thesis
      unfolding contributeUSDC_def
      by (simp add: Let_def) (intro exI conjI, erule sym, simp_all)
  next
    assume "\<not> totalInitialized s" "\<not> hasContributedMap s (msg_sender e)"
    with assms c show ?thesis
      unfolding contributeUSDC_def
      by (simp add: Let_def) (intro exI conjI, erule sym, simp_all)
  qed
qed

lemma contributeUSDC_acl:
  assumes "contributeUSDC e a h p s = Inr s'"
  shows "acl s' = acl s \<union>
     {(H64 (totalRaisedEnc s'), self s), (H64 (totalRaisedEnc s'), owner s),
      (H64 (totalRaisedEnc s'), oracleAddr s),
      (H64 (contributionAmounts s' (msg_sender e)), msg_sender e)}
     \<union> {(HBool (lastGoalReachedCache s'), self s), (HBool (lastGoalReachedCache s'), owner s),
      (HBool (lastGoalReachedCache s'), msg_sender e),
      (HBool (lastGoalReachedCache s'), oracleAddr s)}"
proof -
  from contributeUSDC_form[OF assms] obtain s3 ev
    where s': "s' = updateGoalStatus e (emit ev (setDecryptionPermissions e s3))"
      and s3: "acl s3 = acl s" "self s3 = self s" "owner s3 = owner s" "oracleAddr s3 = oracleAddr s"
    by blast
  let ?s4 = "setDecryptionPermissions e s3"
  let ?s5 = "emit ev ?s4"
  have f5: "totalRaisedEnc ?s5 = totalRaisedEnc s3" "contributionAmounts ?s5 = contributionAmounts s3"
    "self ?s5 = self s" "owner ?s5 = owner s" "oracleAddr ?s5 = oracleAddr s"
    "acl ?s5 = acl ?s4"
    by (simp_all add: emit_def setDecryptionPermissions_frame s3)
  have t: "totalRaisedEnc s' = totalRaisedEnc s3" "contributionAmounts s' = contributionAmounts s3"
    unfolding s' by (simp_all add: updateGoalStatus_frame f5)
  have a4: "acl ?s4 = acl s \<union>
     {(H64 (totalRaisedEnc s'), self s), (H64 (totalRaisedEnc s'), owner s),
      (H64 (totalRaisedEnc s'), oracleAddr s),
      (H64 (contributionAmounts s' (msg_sender e)), msg_sender e)}"
    by (simp only: setDecryptionPermissions_acl s3 t)
  have a6: "acl s' = acl ?s5 \<union>
      {(HBool (lastGoalReachedCache s'), x) | x.
          x \<in> {self ?s5, owner ?s5, msg_sender e, oracleAddr ?s5}}"
    unfolding s' by (rule updateGoalStatus_acl)
  have "{(HBool (lastGoalReachedCache s'), x) | x.
          x \<in> {self ?s5, owner ?s5, msg_sender e, oracleAddr ?s5}}
      = {(HBool (lastGoalReachedCache s'), self s), (HBool (lastGoalReachedCache s'), owner s),
      (HBool (lastGoalReachedCache s'), msg_sender e),
      (HBool (lastGoalReachedCache s'), oracleAddr s)}"
    unfolding f5 by blast
  with a6 show ?thesis by (simp only: f5 a4)
qed

lemma alice_then_bob:
  "\<exists>s1 s2. contributeUSDC alice 5000000 (External 1 5000000) ValidProof campaign0 = Inr s1
     \<and> contributeUSDC bob 7000000 (External 2 7000000) ValidProof s1 = Inr s2"
proof -
  from alice_first obtain s1
    where s1: "contributeUSDC alice 5000000 (External 1 5000000) ValidProof campaign0 = Inr s1" ..
  note fr = contributeUSDC_frame[OF s1]
  have "\<exists>s2. contributeUSDC bob 7000000 (External 2 7000000) ValidProof s1 = Inr s2"
    by (rule contributeUSDC_InrI[where enc = "EInput 2 7000000"])
       (simp_all add: campaignActive_def fr, simp_all add: campaign0_def bob_def)
  with s1 show ?thesis by blast
qed

lemma constructor_InrD:
  assumes "constructor e this orc g d mn mx u t = Inr s"
  shows "g \<noteq> 0" and "mn \<noteq> 0" and "unat mn \<le> unat mx" and "s = \<lparr>
        owner = msg_sender e, usdc = u, treasury = t, self = this, oracleAddr = orc,
        fundingGoal = g, minContribution = mn, maxContribution = mx,
        deadline = of_nat (unat (block_timestamp e) + unat d * one_day),
        totalRaisedEnc = EUninit, lastGoalReachedCache = BUninit,
        hasContributedMap = (\<lambda>a. False), contributionAmounts = (\<lambda>a. EUninit),
        contributorCount = 0, totalInitialized = False, campaignFinalized = False,
        acl = {}, eventLog = [], usdcTransfers = [] \<rparr>"
  using assms by (auto simp: constructor_def split: if_splits)

lemma constructor_goalKept:
  assumes "constructor e this orc g d mn mx u t = Inr s"
  shows "goalKept s"
  using constructor_InrD(1)[OF assms] unfolding constructor_InrD(4)[OF assms]
  by (simp add: goalKept_def decryptedTotal_def word_le_nat_alt unat_gt_0 not_le)

lemma updateGoalStatus_decrypt:
  "fundingGoal s \<noteq> 0 \<Longrightarrow>
   decryptBool (lastGoalReachedCache (updateGoalStatus e s)) = (fundingGoal s \<le> decryptedTotal s)"
  by (simp add: updateGoalStatus_cache decryptedTotal_def word_le_nat_alt unat_gt_0 not_le)

lemma decryptedTotal_updateGoalStatus:
  "decryptedTotal (updateGoalStatus e s) = decryptedTotal s"
  by (simp add: decryptedTotal_def updateGoalStatus_frame)

lemma contributeUSDC_cache:
  assumes "contributeUSDC e a h p s = Inr s'"
  shows "lastGoalReachedCache s' = BGe (totalRaisedEnc s') (EPlain (fundingGoal s'))"
    and "decryptBool (lastGoalReachedCache s') = (fundingGoal s' \<le> decryptedTotal s')"
proof -
  from contributeUSDC_InrD(6)[OF assms] obtain enc where enc: "FHE_fromExternal h p = Some enc" ..
  note led = contributeUSDC_ledger[OF assms enc]
  show c: "lastGoalReachedCache s' = BGe (totalRaisedEnc s') (EPlain (fundingGoal s'))"
    by (simp add: led(8) contributeUSDC_frame[OF assms])
  show "decryptBool (lastGoalReachedCache s') = (fundingGoal s' \<le> decryptedTotal s')"
    unfolding c by (simp add: decryptedTotal_def led(1))
qed

lemma updateGoal_cache:
  assumes "updateGoal e g s = Inr s'"
  shows "fundingGoal s' = g" and "g \<noteq> 0"
    and "totalInitialized s' = totalInitialized s"
    and "totalRaisedEnc s' = totalRaisedEnc s"
    and "lastGoalReachedCache s' =
          (if \<not> totalInitialized s' then BPlain False
           else BGe (totalRaisedEnc s') (EPlain (fundingGoal s')))"
  using assms unfolding updateGoal_guard
  by (auto simp: emit_def updateGoalStatus_frame updateGoalStatus_cache
      split: option.splits if_splits)

lemma updateGoal_decrypt:
  assumes "updateGoal e g s = Inr s'"
  shows "decryptBool (lastGoalReachedCache s') = (fundingGoal s' \<le> decryptedTotal s')"
  using updateGoal_cache(2)[OF assms]
  unfolding updateGoal_cache(5)[OF assms]
  by (simp add: decryptedTotal_def updateGoal_cache(1)[OF assms] word_le_nat_alt unat_gt_0 not_le)

lemma exec_goalKept:
  assumes "exec e c s = Inr s'" and "goalKept s"
  shows "goalKept s'"
proof (cases c)
  case (ContributeUSDC a h p)
  with assms have ok: "contributeUSDC e a h p s = Inr s'" by simp
  from contributeUSDC_cache(2)[OF ok] contributeUSDC_frame(6)[OF ok] assms(2)
  show ?thesis by (simp add: goalKept_def)
next
  case CheckGoalReached
  with assms show ?thesis
    by (auto simp: checkGoalReached_def goalKept_def updateGoalStatus_decrypt
        updateGoalStatus_frame decryptedTotal_updateGoalStatus)
next
  case FinalizeCampaign
  with assms show ?thesis
    by (auto simp: finalizeCampaign_Inr_iff goalKept_def decryptedTotal_def)
next
  case (UpdateGoal g)
  with assms have ok: "updateGoal e g s = Inr s'" by simp
  from updateGoal_decrypt[OF ok] updateGoal_cache(1,2)[OF ok] show ?thesis
    by (simp add: goalKept_def)
next
  case (ExtendDeadline d)
  with assms show ?thesis
    by (auto simp: extendDeadline_def Let_def emit_def goalKept_def decryptedTotal_def
        split: option.splits if_splits)
next
  case GrantPublicDecrypt
  with assms show ?thesis
    by (auto simp: grantPublicDecrypt_def Let_def FHE_allow_def goalKept_def decryptedTotal_def
        split: if_splits)
qed

lemma run_goalKept: "goalKept s \<Longrightarrow> goalKept (run s ts)"
proof (induction ts arbitrary: s)
  case Nil
  then show ?case by simp
next
  case (Cons t ts)
  have "goalKept (step s t)"
    using Cons.prems exec_goalKept[of "fst t" "snd t" s]
    by (cases "exec (fst t) (snd t) s") (simp_all add: step_def commit_def)
  then show ?case by (simp add: Cons.IH)
qed

lemma extendDeadline_Inr:
  assumes "msg_sender e = owner s" and "\<not> campaignFinalized s" and "d \<noteq> 0"
    and "unat (deadline s) + unat d * one_day < 2 ^ 64"
  shows "extendDeadline e d s =
     Inr (s\<lparr>deadline := deadline s + d * of_nat one_day,
            eventLog := eventLog s @ [DeadlineExtended (deadline s) (deadline s + d * of_nat one_day)]\<rparr>)"
proof -
  from assms(4) have "\<not> 2 ^ 64 \<le> unat d * one_day"
    and "\<not> 2 ^ 64 \<le> unat (deadline s) + unat d * one_day" by simp_all
  with assms(1,2,3) show ?thesis
    by (simp add: extendDeadline_def onlyOwner_def Let_def emit_def)
qed

lemma unat_extended:
  assumes "unat (dl :: uint64) + unat (d :: uint64) * one_day < 2 ^ 64"
  shows "unat (dl + d * of_nat one_day) = unat dl + unat d * one_day"
proof -
  have od: "unat (of_nat one_day :: uint64) = one_day"
    by (simp add: one_day_def)
  from assms have m: "unat d * one_day < 2 ^ 64" by simp
  have "unat (d * of_nat one_day :: uint64) = unat d * one_day mod 2 ^ 64"
    by (simp add: unat_word_ariths od)
  with m have p: "unat (d * of_nat one_day :: uint64) = unat d * one_day" by simp
  have "unat (dl + d * of_nat one_day) = (unat dl + unat (d * of_nat one_day :: uint64)) mod 2 ^ 64"
    by (simp add: unat_word_ariths)
  with assms p show ?thesis by simp
qed

lemma extendDeadline_deadline:
  assumes "extendDeadline e d s = Inr s'"
  shows "unat (deadline s') = unat (deadline s) + unat d * one_day" and "d \<noteq> 0"
proof -
  have 1: "msg_sender e = owner s"
    using assms by (cases "msg_sender e = owner s") (simp_all add: extendDeadline_def onlyOwner_def)
  have 2: "\<not> campaignFinalized s"
    using assms 1 by (cases "campaignFinalized s") (simp_all add: extendDeadline_def onlyOwner_def)
  have 3: "d \<noteq> 0"
    using assms 1 2 by (cases "d = 0") (simp_all add: extendDeadline_def onlyOwner_def)
  have 4: "\<not> 2 ^ 64 \<le> unat d * one_day"
    using assms 1 2 3
    by (cases "2 ^ 64 \<le> unat d * one_day") (simp_all add: extendDeadline_def onlyOwner_def)
  have 5: "\<not> 2 ^ 64 \<le> unat (deadline s) + unat d * one_day"
    using assms 1 2 3 4
    by (cases "2 ^ 64 \<le> unat (deadline s) + unat d * one_day")
       (simp_all add: extendDeadline_def onlyOwner_def)
  from 1 2 3 5 have c: "msg_sender e = owner s" "\<not> campaignFinalized s" "d \<noteq> 0"
    "unat (deadline s) + unat d * one_day < 2 ^ 64"
    by simp_all
  from assms extendDeadline_Inr[OF c] unat_extended[OF c(4)]
  show "unat (deadline s') = unat (deadline s) + unat d * one_day" by auto
  show "d \<noteq> 0" by (rule c(3))
qed

lemma exec_deadline_mono:
  assumes "exec e c s = Inr s'"
  shows "unat (deadline s) \<le> unat (deadline s')"
proof (cases c)
  case (ContributeUSDC a h p)
  with assms show ?thesis by (simp add: contributeUSDC_frame)
next
  case CheckGoalReached
  with assms show ?thesis by (auto simp: checkGoalReached_def updateGoalStatus_frame)
next
  case FinalizeCampaign
  with assms show ?thesis by (auto simp: finalizeCampaign_Inr_iff)
next
  case (UpdateGoal g)
  with assms show ?thesis by (simp add: updateGoal_frame)
next
  case (ExtendDeadline d)
  with assms show ?thesis by (simp add: extendDeadline_deadline)
next
  case GrantPublicDecrypt
  with assms show ?thesis by (simp add: grantPublicDecrypt_frame)
qed

lemma run_invariant:
  "unat (deadline s) \<le> unat (deadline (run s ts))
   \<and> owner (run s ts) = owner s \<and> usdc (run s ts) = usdc s
   \<and> treasury (run s ts) = treasury s
   \<and> minContribution (run s ts) = minContribution s
   \<and> maxContribution (run s ts) = maxContribution s"
proof (induction ts arbitrary: s)
  case Nil
  then show ?case by simp
next
  case (Cons t ts)
  have "unat (deadline s) \<le> unat (deadline (step s t))
      \<and> owner (step s t) = owner s \<and> usdc (step s t) = usdc s
      \<and> treasury (step s t) = treasury s
      \<and> minContribution (step s t) = minContribution s
      \<and> maxContribution (step s t) = maxContribution s"
  proof (cases "exec (fst t) (snd t) s")
    case (Inl err)
    then show ?thesis by (simp add: step_def commit_def)
  next
    case (Inr s')
    then have "step s t = s'" by (simp add: step_def commit_def)
    with exec_deadline_mono[OF Inr] exec_config[OF Inr] show ?thesis by simp
  qed
  with Cons.IH[of "step s t"] show ?case by simp
qed

section \<open>The claims\<close>

subsection \<open>C1: folding a contribution into the aggregate\<close>

text \<open>
  C1. An accepted contribution sets the encrypted aggregate to the contributed encrypted
  amount and the initialized flag to true when the aggregate was uninitialized, and
  otherwise replaces the aggregate by the homomorphic sum of the old aggregate and the
  contributed amount. In every history, the initialized flag after a step is true
  exactly when it was true before or the step is an accepted contribution, and it
  changes at a step exactly when it was false at the start and the step is the first
  accepted contribution of the history: it goes from false to true once and never back.
\<close>

theorem C1_aggregate_fold:
  "(contributeUSDC e a h p s = Inr s' \<longrightarrow>
      (\<exists>enc. FHE_fromExternal h p = Some enc \<and> totalInitialized s' \<and>
         totalRaisedEnc s' =
           (if totalInitialized s then FHE_add (totalRaisedEnc s) enc else enc)))
   \<and> (i < length ts \<longrightarrow>
        totalInitialized (run s0 (take (Suc i) ts))
          = (totalInitialized (run s0 (take i ts)) \<or> accepted (run s0 (take i ts)) (ts ! i)))
   \<and> (i < length ts \<longrightarrow>
        (totalInitialized (run s0 (take (Suc i) ts)) \<noteq> totalInitialized (run s0 (take i ts)))
          = (\<not> totalInitialized s0 \<and> accepted (run s0 (take i ts)) (ts ! i)
             \<and> (\<forall>j<i. \<not> accepted (run s0 (take j ts)) (ts ! j))))"
proof (intro conjI impI)
  assume ok: "contributeUSDC e a h p s = Inr s'"
  from contributeUSDC_InrD(6)[OF ok] obtain enc where enc: "FHE_fromExternal h p = Some enc" ..
  from contributeUSDC_ledger(1,2)[OF ok enc] enc
  show "\<exists>enc. FHE_fromExternal h p = Some enc \<and> totalInitialized s' \<and>
         totalRaisedEnc s' =
           (if totalInitialized s then FHE_add (totalRaisedEnc s) enc else enc)"
    by (simp add: FHE_add_def)
next
  assume i: "i < length ts"
  then show "totalInitialized (run s0 (take (Suc i) ts))
      = (totalInitialized (run s0 (take i ts)) \<or> accepted (run s0 (take i ts)) (ts ! i))"
    by (simp add: run_take_Suc step_totalInitialized)
next
  assume i: "i < length ts"
  then have a: "totalInitialized (run s0 (take (Suc i) ts)) =
      (totalInitialized (run s0 (take i ts)) \<or> accepted (run s0 (take i ts)) (ts ! i))"
    by (simp add: run_take_Suc step_totalInitialized)
  from i have b: "totalInitialized (run s0 (take i ts)) =
      (totalInitialized s0 \<or> (\<exists>j<i. accepted (run s0 (take j ts)) (ts ! j)))"
    by (simp add: run_take_totalInitialized)
  show "(totalInitialized (run s0 (take (Suc i) ts)) \<noteq> totalInitialized (run s0 (take i ts)))
          = (\<not> totalInitialized s0 \<and> accepted (run s0 (take i ts)) (ts ! i)
             \<and> (\<forall>j<i. \<not> accepted (run s0 (take j ts)) (ts ! j)))"
    unfolding a b by blast
qed

theorem C1_aggregate_fold_witness:
  "\<exists>s1 s2. contributeUSDC alice 5000000 (External 1 5000000) ValidProof campaign0 = Inr s1
     \<and> \<not> totalInitialized campaign0
     \<and> totalInitialized s1 \<and> totalRaisedEnc s1 = EInput 1 5000000
     \<and> contributeUSDC bob 7000000 (External 2 7000000) ValidProof s1 = Inr s2
     \<and> totalInitialized s2
     \<and> totalRaisedEnc s2 = FHE_add (EInput 1 5000000) (EInput 2 7000000)
     \<and> decrypt64 (totalRaisedEnc s2) = 12000000
     \<and> totalInitialized (run campaign0 (take (Suc 0) [(alice, alicePays), (bob, bobPays)]))
     \<and> totalInitialized (run campaign0 (take (Suc 1) [(alice, alicePays), (bob, bobPays)]))
        = totalInitialized (run campaign0 (take 1 [(alice, alicePays), (bob, bobPays)]))"
proof -
  from alice_then_bob obtain s1 s2
    where ok: "contributeUSDC alice 5000000 (External 1 5000000) ValidProof campaign0 = Inr s1"
      and ok2: "contributeUSDC bob 7000000 (External 2 7000000) ValidProof s1 = Inr s2"
    by blast
  have acc: "accepted campaign0 (alice, alicePays)"
    using ok by (simp add: accepted_def alicePays_def)
  have n: "\<not> totalInitialized campaign0" by (simp add: campaign0_def)
  from C1_aggregate_fold[of alice 5000000 "External 1 5000000" ValidProof campaign0 s1
      0 "[(alice, alicePays), (bob, bobPays)]" campaign0] ok
  have 1: "totalInitialized s1 \<and> totalRaisedEnc s1 = EInput 1 5000000"
    and 2: "totalInitialized (run campaign0 (take (Suc 0) [(alice, alicePays), (bob, bobPays)]))"
    using acc n by (auto simp: campaign0_def)
  from C1_aggregate_fold[of bob 7000000 "External 2 7000000" ValidProof s1 s2
      1 "[(alice, alicePays), (bob, bobPays)]" campaign0] ok2 acc
  have 3: "totalInitialized (run campaign0 (take (Suc 1) [(alice, alicePays), (bob, bobPays)]))
        = totalInitialized (run campaign0 (take 1 [(alice, alicePays), (bob, bobPays)]))"
    and 4: "totalInitialized s2
        \<and> totalRaisedEnc s2 = FHE_add (EInput 1 5000000) (EInput 2 7000000)"
    using 1 by auto
  from 4 have 5: "decrypt64 (totalRaisedEnc s2) = 12000000"
    by (simp add: FHE_add_def)
  from ok ok2 1 2 3 4 5 n show ?thesis by blast
qed

subsection \<open>C2: the aggregate does not depend on the order\<close>

text \<open>
  C2, as the code has it. Take a list of contributions of distinct contributors, every
  one of them accepted, and a permutation of it, every one of them accepted. Both final
  aggregates decrypt to the same 64-bit value: the sum of the amounts (added to what the
  aggregate held before) modulo \<open>2 ^ 64\<close>. This is the exact sum whenever the exact sum
  is below \<open>2 ^ 64\<close>. The amount of a contribution is the amount its ciphertext encrypts.
\<close>

theorem C2_order_independent_total:
  assumes "contributeAll s cs = Inr s1"
    and "distinct (map (\<lambda>c. msg_sender (fst c)) cs)"
    and "mset cs' = mset cs"
    and "contributeAll s cs' = Inr s2"
  shows "decryptedTotal s2 = decryptedTotal s1
      \<and> decryptedTotal s1 = decryptedTotal s + sum_list (map encryptedAmount cs)
      \<and> unat (decryptedTotal s1)
          = (unat (decryptedTotal s) + sum_list (map (unat \<circ> encryptedAmount) cs)) mod 2 ^ 64
      \<and> (unat (decryptedTotal s) + sum_list (map (unat \<circ> encryptedAmount) cs) < 2 ^ 64 \<longrightarrow>
           unat (decryptedTotal s1)
             = unat (decryptedTotal s) + sum_list (map (unat \<circ> encryptedAmount) cs))"
proof -
  have "sum_list (map encryptedAmount cs') = sum_list (map encryptedAmount cs)"
  proof -
    have "mset (map encryptedAmount cs') = mset (map encryptedAmount cs)"
      using assms(3) by simp
    then have "sum_mset (mset (map encryptedAmount cs')) = sum_mset (mset (map encryptedAmount cs))"
      by (rule arg_cong)
    then show ?thesis by (simp only: sum_mset_sum_list)
  qed
  with contributeAll_decryptedTotal[OF assms(4)] contributeAll_decryptedTotal[OF assms(1)]
  have same: "decryptedTotal s2 = decryptedTotal s1" by simp
  have tot: "decryptedTotal s1 = decryptedTotal s + sum_list (map encryptedAmount cs)"
    by (rule contributeAll_decryptedTotal[OF assms(1)])
  have "unat (decryptedTotal s1)
      = unat (sum_list (decryptedTotal s # map encryptedAmount cs))"
    by (simp add: tot)
  also have "\<dots> = sum_list (map unat (decryptedTotal s # map encryptedAmount cs)) mod 2 ^ 64"
    by (rule unat_sum_list_word)
  finally have m: "unat (decryptedTotal s1)
      = (unat (decryptedTotal s) + sum_list (map (unat \<circ> encryptedAmount) cs)) mod 2 ^ 64"
    by (simp add: comp_def)
  from same tot m show ?thesis by auto
qed

theorem C2_order_independent_total_witness:
  "\<exists>s1 s2. contributeAll campaign0
        [(alice, 5000000, External 1 5000000, ValidProof),
         (bob, 7000000, External 2 7000000, ValidProof)] = Inr s1
     \<and> contributeAll campaign0
        [(bob, 7000000, External 2 7000000, ValidProof),
         (alice, 5000000, External 1 5000000, ValidProof)] = Inr s2
     \<and> msg_sender alice \<noteq> msg_sender bob
     \<and> decryptedTotal s2 = decryptedTotal s1
     \<and> unat (decryptedTotal s1) = 12000000
     \<and> unat (decryptedTotal s2) = 12000000"
proof -
  let ?a = "(alice, 5000000, External 1 5000000, ValidProof) :: contribution"
  let ?b = "(bob, 7000000, External 2 7000000, ValidProof) :: contribution"
  have "\<exists>s1. contributeAll campaign0 [?a, ?b] = Inr s1"
    unfolding contributeAll_accept_iff
    by (simp add: contributeUSDC_accept_iff campaignActive_def campaign0_def alice_def bob_def)
  then obtain s1 where s1: "contributeAll campaign0 [?a, ?b] = Inr s1" ..
  have "\<exists>s2. contributeAll campaign0 [?b, ?a] = Inr s2"
    unfolding contributeAll_accept_iff
    by (simp add: contributeUSDC_accept_iff campaignActive_def campaign0_def alice_def bob_def)
  then obtain s2 where s2: "contributeAll campaign0 [?b, ?a] = Inr s2" ..
  have d: "distinct (map (\<lambda>c. msg_sender (fst c)) [?a, ?b])"
    by (simp add: alice_def bob_def)
  have n: "msg_sender alice \<noteq> msg_sender bob" by (simp add: alice_def bob_def)
  have p: "mset [?b, ?a] = mset [?a, ?b]" by (simp add: add.commute)
  have z: "decryptedTotal campaign0 = 0" by (simp add: decryptedTotal_def campaign0_def)
  from C2_order_independent_total[OF s1 d p s2]
  have "decryptedTotal s2 = decryptedTotal s1" and "unat (decryptedTotal s1) = 12000000"
    by (auto simp: z)
  with s1 s2 n show ?thesis by auto
qed

text \<open>
  C2 as stated fails where the exact sum does not fit 64 bits: two distinct contributors
  each pay and encrypt \<open>2 ^ 63\<close> into a campaign whose maximum contribution allows it,
  both are accepted, and the aggregate decrypts to 0.
\<close>

theorem C2_total_wraps_counterexample:
  "\<exists>s1. contributeAll wideCampaign [aliceHalf, bobHalf] = Inr s1
     \<and> msg_sender (fst aliceHalf) \<noteq> msg_sender (fst bobHalf)
     \<and> decryptedTotal s1 = 0
     \<and> unat (decryptedTotal s1)
         \<noteq> unat (encryptedAmount aliceHalf) + unat (encryptedAmount bobHalf)"
proof -
  from halves_accepted obtain s1 where s1: "contributeAll wideCampaign [aliceHalf, bobHalf] = Inr s1" ..
  have "decryptedTotal wideCampaign = 0"
    by (simp add: decryptedTotal_def wideCampaign_def campaign0_def)
  with contributeAll_decryptedTotal[OF s1] have "decryptedTotal s1 = 0"
    by (simp add: aliceHalf_def bobHalf_def)
  with s1 show ?thesis
    by (auto simp: aliceHalf_def bobHalf_def alice_def bob_def)
qed

subsection \<open>C3: a rejected contribution changes nothing\<close>

text \<open>
  C3. A contribution whose stated amount is below the minimum or above the maximum, or
  whose token transfer reports failure, reverts, and the transaction leaves the storage
  as it was: aggregate, initialized flag, contributor records, contributor count and the
  log of transfers. An out-of-bounds attempt fails before the transfer is asked for: it
  never fails with the transfer's error, and its outcome is the same whatever the token
  would answer. An in-bounds attempt on an active campaign whose transfer is declined
  fails with the transfer's error.
\<close>

theorem C3_rejected_contribution:
  assumes "unat a < unat (minContribution s) \<or> unat (maxContribution s) < unat a
           \<or> \<not> usdc_transferFrom e (msg_sender e) (treasury s) a"
  shows "\<exists>err. contributeUSDC e a h p s = Inl err
      \<and> step s (e, ContributeUSDC a h p) = s
      \<and> totalRaisedEnc (step s (e, ContributeUSDC a h p)) = totalRaisedEnc s
      \<and> totalInitialized (step s (e, ContributeUSDC a h p)) = totalInitialized s
      \<and> contributionAmounts (step s (e, ContributeUSDC a h p)) = contributionAmounts s
      \<and> hasContributedMap (step s (e, ContributeUSDC a h p)) = hasContributedMap s
      \<and> contributorCount (step s (e, ContributeUSDC a h p)) = contributorCount s
      \<and> usdcTransfers (step s (e, ContributeUSDC a h p)) = usdcTransfers s
      \<and> (unat a < unat (minContribution s) \<or> unat (maxContribution s) < unat a \<longrightarrow>
           err \<noteq> Require ''USDC transfer failed''
           \<and> contributeUSDC (e\<lparr>usdc_transferFrom := f\<rparr>) a h p s = Inl err
           \<and> (campaignActive e s = None \<longrightarrow>
                err = Require ''Amount cannot be zero'' \<or> err = Require ''Amount outside bounds''))
      \<and> (campaignActive e s = None \<and> 0 < a \<and> unat (minContribution s) \<le> unat a
           \<and> unat a \<le> unat (maxContribution s) \<longrightarrow> err = Require ''USDC transfer failed'')"
proof -
  from assms obtain err where err: "contributeUSDC e a h p s = Inl err"
    by (cases "contributeUSDC e a h p s") (auto dest: contributeUSDC_InrD)
  then have same: "step s (e, ContributeUSDC a h p) = s"
    by (simp add: step_def commit_def)
  have oob1: "err \<noteq> Require ''USDC transfer failed''"
    if "unat a < unat (minContribution s) \<or> unat (maxContribution s) < unat a"
    using err campaignActive_cases[of e s] unfolding contributeUSDC_out_of_bounds[OF that]
    by (auto split: if_splits)
  have oob2: "contributeUSDC (e\<lparr>usdc_transferFrom := f\<rparr>) a h p s = Inl err"
    if "unat a < unat (minContribution s) \<or> unat (maxContribution s) < unat a"
    using err
    by (simp add: contributeUSDC_out_of_bounds[OF that] campaignActive_token)
  have oob3: "err = Require ''Amount cannot be zero'' \<or> err = Require ''Amount outside bounds''"
    if "unat a < unat (minContribution s) \<or> unat (maxContribution s) < unat a"
      and "campaignActive e s = None"
    using err that(2) unfolding contributeUSDC_out_of_bounds[OF that(1)]
    by (auto split: if_splits)
  have tf: "err = Require ''USDC transfer failed''"
    if "campaignActive e s = None \<and> 0 < a \<and> unat (minContribution s) \<le> unat a
           \<and> unat a \<le> unat (maxContribution s)"
  proof -
    from that assms have "\<not> usdc_transferFrom e (msg_sender e) (treasury s) a" by auto
    with that have "contributeUSDC e a h p s = Inl (Require ''USDC transfer failed'')"
      by (simp add: contributeUSDC_transfer_failed)
    with err show ?thesis by simp
  qed
  show ?thesis
  proof (intro exI[of _ err] conjI impI)
    show "contributeUSDC e a h p s = Inl err" by (rule err)
  qed (simp_all only: same oob1 oob2 oob3 tf not_False_eq_True)
qed

theorem C3_rejected_contribution_witness:
  "contributeUSDC alice 500000 (External 1 500000) ValidProof campaign0
      = Inl (Require ''Amount outside bounds'')
   \<and> contributeUSDC carol 500000 (External 1 500000) ValidProof campaign0
      = Inl (Require ''Amount outside bounds'')
   \<and> step campaign0 (alice, ContributeUSDC 500000 (External 1 500000) ValidProof) = campaign0
   \<and> contributeUSDC carol 5000000 (External 1 5000000) ValidProof campaign0
      = Inl (Require ''USDC transfer failed'')
   \<and> step campaign0 (carol, ContributeUSDC 5000000 (External 1 5000000) ValidProof) = campaign0
   \<and> usdcTransfers (step campaign0 (carol, ContributeUSDC 5000000 (External 1 5000000) ValidProof))
      = []"
proof -
  have oob: "unat (500000 :: uint256) < unat (minContribution campaign0)
      \<or> unat (maxContribution campaign0) < unat (500000 :: uint256)
      \<or> \<not> usdc_transferFrom alice (msg_sender alice) (treasury campaign0) 500000"
    by (simp add: campaign0_def)
  have act: "campaignActive alice campaign0 = None" "campaignActive carol campaign0 = None"
    by (simp_all add: campaignActive_def campaign0_def alice_def carol_def)
  from C3_rejected_contribution[OF oob, of "External 1 500000" ValidProof "\<lambda>f t a. False"]
  obtain err where 1: "contributeUSDC alice 500000 (External 1 500000) ValidProof campaign0 = Inl err"
    and 2: "step campaign0 (alice, ContributeUSDC 500000 (External 1 500000) ValidProof) = campaign0"
    and 3: "contributeUSDC (alice\<lparr>usdc_transferFrom := \<lambda>f t a. False\<rparr>) 500000
         (External 1 500000) ValidProof campaign0 = Inl err"
    and 4: "err = Require ''Amount cannot be zero'' \<or> err = Require ''Amount outside bounds''"
    using act(1) by (auto simp: campaign0_def)
  have 5: "err = Require ''Amount outside bounds''"
    using 1 unfolding contributeUSDC_def act by (simp add: campaign0_def)
  have tf: "unat (5000000 :: uint256) < unat (minContribution campaign0)
      \<or> unat (maxContribution campaign0) < unat (5000000 :: uint256)
      \<or> \<not> usdc_transferFrom carol (msg_sender carol) (treasury campaign0) 5000000"
    by (simp add: carol_def)
  from C3_rejected_contribution[OF tf, of "External 1 5000000" ValidProof "\<lambda>f t a. False"]
  obtain err2 where 6: "contributeUSDC carol 5000000 (External 1 5000000) ValidProof campaign0 = Inl err2"
    and 7: "step campaign0 (carol, ContributeUSDC 5000000 (External 1 5000000) ValidProof) = campaign0"
    and 8: "usdcTransfers (step campaign0 (carol, ContributeUSDC 5000000 (External 1 5000000) ValidProof))
      = usdcTransfers campaign0"
    and 9: "err2 = Require ''USDC transfer failed''"
    using act(2) by (auto simp: campaign0_def)
  have c: "alice\<lparr>usdc_transferFrom := \<lambda>f t a. False\<rparr> = carol\<lparr>msg_sender := 7\<rparr>"
    by (simp add: alice_def carol_def)
  have 10: "contributeUSDC carol 500000 (External 1 500000) ValidProof campaign0
      = Inl (Require ''Amount outside bounds'')"
    unfolding contributeUSDC_def act by (simp add: campaign0_def)
  have 11: "usdcTransfers campaign0 = []" by (simp add: campaign0_def)
  from 1 2 5 6 7 8 9 10 11 show ?thesis by simp
qed

subsection \<open>C4: lifecycle gating\<close>

text \<open>
  C4, as the code has it. On a campaign that is not finalized, at \<open>now \<ge> deadline\<close>, a
  contribution fails with \<open>CampaignExpired\<close>, and a goal update fails with
  \<open>CampaignExpired\<close> when the owner calls it and with \<open>NotOwner\<close> otherwise: the owner
  check comes first, in every state. Once the campaign is finalized, every contribution
  and every goal update fails, also after any further history. Finalize before the
  deadline fails; a finalize after a successful one fails; the finalized flag changes only
  in a successful finalize, from false to true, and stays true in every history.
\<close>

theorem C4_lifecycle_gating:
  "(\<not> campaignFinalized s \<and> unat (deadline s) \<le> unat (block_timestamp e) \<longrightarrow>
      contributeUSDC e a h p s = Inl CampaignExpired
      \<and> updateGoal e g s = Inl (if msg_sender e \<noteq> owner s then NotOwner else CampaignExpired))
   \<and> (msg_sender e \<noteq> owner s \<longrightarrow> updateGoal e g s = Inl NotOwner)
   \<and> (campaignFinalized s \<longrightarrow>
      (\<exists>err. contributeUSDC e a h p s = Inl err)
      \<and> (\<exists>err. updateGoal e g s = Inl err)
      \<and> finalizeCampaign e s =
        Inl (Require (if unat (deadline s) \<le> unat (block_timestamp e)
                      then ''Campaign already finalized'' else ''Campaign still active''))
      \<and> campaignFinalized (run s ts) \<and> deadline (run s ts) = deadline s)
   \<and> (unat (block_timestamp e) < unat (deadline s) \<longrightarrow>
      finalizeCampaign e s = Inl (Require ''Campaign still active''))
   \<and> (finalizeCampaign e s = Inr s' \<longrightarrow>
      \<not> campaignFinalized s \<and> campaignFinalized s'
      \<and> unat (deadline s) \<le> unat (block_timestamp e)
      \<and> (\<exists>err. finalizeCampaign e2 (run s' ts) = Inl err)
      \<and> (\<exists>err. contributeUSDC e2 a h p (run s' ts) = Inl err)
      \<and> (\<exists>err. updateGoal e2 g (run s' ts) = Inl err))
   \<and> (campaignFinalized (step s t) \<noteq> campaignFinalized s) =
       (\<not> campaignFinalized s \<and> snd t = FinalizeCampaign
        \<and> unat (deadline s) \<le> unat (block_timestamp (fst t)))"
proof -
  have fails: "(\<exists>err. contributeUSDC e' a h p x = Inl err)
      \<and> (\<exists>err. updateGoal e' g x = Inl err)" if "campaignFinalized x" for e' x
  proof -
    from that have "campaignActive e' x =
        Some (if unat (deadline x) \<le> unat (block_timestamp e') then CampaignExpired
              else CampaignAlreadyFinalized)"
      by (simp add: campaignActive_def)
    then obtain err where ca: "campaignActive e' x = Some err" ..
    from contributeUSDC_guard[OF ca] have "\<exists>err. contributeUSDC e' a h p x = Inl err" ..
    moreover from ca have "\<exists>err. updateGoal e' g x = Inl err"
      by (simp add: updateGoal_guard)
    ultimately show ?thesis ..
  qed
  show ?thesis
  proof (intro conjI impI)
    assume "\<not> campaignFinalized s \<and> unat (deadline s) \<le> unat (block_timestamp e)"
    then have ca: "campaignActive e s = Some CampaignExpired"
      by (simp add: campaignActive_def)
    then show "contributeUSDC e a h p s = Inl CampaignExpired" by (rule contributeUSDC_guard)
    from ca
    show "updateGoal e g s = Inl (if msg_sender e \<noteq> owner s then NotOwner else CampaignExpired)"
      by (simp add: updateGoal_guard)
  next
    assume "msg_sender e \<noteq> owner s"
    then show "updateGoal e g s = Inl NotOwner" by (simp add: updateGoal_guard)
  next
    assume f: "campaignFinalized s"
    from fails[OF f] show "\<exists>err. contributeUSDC e a h p s = Inl err"
      and "\<exists>err. updateGoal e g s = Inl err" by simp_all
    from f show "finalizeCampaign e s =
          Inl (Require (if unat (deadline s) \<le> unat (block_timestamp e)
                        then ''Campaign already finalized'' else ''Campaign still active''))"
      by (simp add: finalizeCampaign_def)
    from run_finalized[OF f] show "campaignFinalized (run s ts)" "deadline (run s ts) = deadline s"
      by simp_all
  next
    assume "unat (block_timestamp e) < unat (deadline s)"
    then show "finalizeCampaign e s = Inl (Require ''Campaign still active'')"
      by (simp add: finalizeCampaign_def)
  next
    assume ok: "finalizeCampaign e s = Inr s'"
    then show "\<not> campaignFinalized s" "campaignFinalized s'"
      "unat (deadline s) \<le> unat (block_timestamp e)"
      by (simp_all add: finalizeCampaign_Inr_iff)
    from ok have f': "campaignFinalized s'"
      by (simp add: finalizeCampaign_Inr_iff)
    from run_finalized[OF f', of ts] have rf: "campaignFinalized (run s' ts)" ..
    then show "\<exists>err. finalizeCampaign e2 (run s' ts) = Inl err"
      by (simp add: finalizeCampaign_def)
    from fails[OF rf] show "\<exists>err. contributeUSDC e2 a h p (run s' ts) = Inl err"
      and "\<exists>err. updateGoal e2 g (run s' ts) = Inl err" by simp_all
  next
    show "(campaignFinalized (step s t) \<noteq> campaignFinalized s) =
         (\<not> campaignFinalized s \<and> snd t = FinalizeCampaign
          \<and> unat (deadline s) \<le> unat (block_timestamp (fst t)))"
      unfolding step_campaignFinalized by blast
  qed
qed

theorem C4_lifecycle_gating_witness:
  "contributeUSDC late 5000000 (External 1 5000000) ValidProof campaign0 = Inl CampaignExpired
   \<and> updateGoal ownerLate 2000000000 campaign0 = Inl CampaignExpired
   \<and> updateGoal late 2000000000 campaign0 = Inl NotOwner
   \<and> finalizeCampaign alice campaign0 = Inl (Require ''Campaign still active'')
   \<and> (\<exists>sF. finalizeCampaign late campaign0 = Inr sF \<and> campaignFinalized sF
        \<and> (\<exists>err. finalizeCampaign late (run sF [(late, alicePays)]) = Inl err)
        \<and> (\<exists>err. contributeUSDC late 5000000 (External 1 5000000) ValidProof
             (run sF [(late, alicePays)]) = Inl err)
        \<and> (\<exists>err. updateGoal ownerLate 2000000000 sF = Inl err)
        \<and> campaignFinalized (run sF [(late, FinalizeCampaign)])
        \<and> campaignFinalized (step campaign0 (late, FinalizeCampaign)) \<noteq> campaignFinalized campaign0)"
proof -
  let ?sF = "campaign0\<lparr>campaignFinalized := True, eventLog := [CampaignEnded False 2593000]\<rparr>"
  have x: "\<not> campaignFinalized campaign0
      \<and> unat (deadline campaign0) \<le> unat (block_timestamp late)"
    by (simp add: campaign0_def late_def)
  have xo: "\<not> campaignFinalized campaign0
      \<and> unat (deadline campaign0) \<le> unat (block_timestamp ownerLate)"
    by (simp add: campaign0_def ownerLate_def)
  have o: "msg_sender ownerLate = owner campaign0" by (simp add: campaign0_def ownerLate_def)
  have y: "unat (block_timestamp alice) < unat (deadline campaign0)"
    by (simp add: campaign0_def alice_def)
  have n: "msg_sender late \<noteq> owner campaign0" by (simp add: campaign0_def late_def)
  have f: "campaignFinalized ?sF" by simp
  note inst = C4_lifecycle_gating[where s = campaign0 and e = late and a = 5000000
      and h = "External 1 5000000" and p = ValidProof and g = 2000000000 and s' = ?sF
      and ?e2.0 = late and ts = "[(late, alicePays)]" and t = "(late, FinalizeCampaign)"]
  from inst x n finalize_late
  have 1: "contributeUSDC late 5000000 (External 1 5000000) ValidProof campaign0 = Inl CampaignExpired"
    and 2: "updateGoal late 2000000000 campaign0 = Inl NotOwner"
    and 3: "\<exists>err. finalizeCampaign late (run ?sF [(late, alicePays)]) = Inl err"
    and 4: "\<exists>err. contributeUSDC late 5000000 (External 1 5000000) ValidProof
             (run ?sF [(late, alicePays)]) = Inl err"
    and 5: "campaignFinalized (step campaign0 (late, FinalizeCampaign)) \<noteq> campaignFinalized campaign0"
    by simp_all
  from C4_lifecycle_gating[where s = campaign0 and e = alice, THEN conjunct2, THEN conjunct2,
      THEN conjunct2, THEN conjunct1, THEN mp, OF y]
  have 6: "finalizeCampaign alice campaign0 = Inl (Require ''Campaign still active'')" .
  from C4_lifecycle_gating[where s = ?sF and ts = "[(late, FinalizeCampaign)]"
      and e = ownerLate and g = 2000000000,
      THEN conjunct2, THEN conjunct2, THEN conjunct1, THEN mp, OF f]
  have 7: "campaignFinalized (run ?sF [(late, FinalizeCampaign)])"
    and 8: "\<exists>err. updateGoal ownerLate 2000000000 ?sF = Inl err"
    by blast+
  from C4_lifecycle_gating[where s = campaign0 and e = ownerLate and g = 2000000000,
      THEN conjunct1, THEN mp, OF xo] o
  have 9: "updateGoal ownerLate 2000000000 campaign0 = Inl CampaignExpired"
    by simp
  from 1 2 3 4 5 6 7 8 9 finalize_late f show ?thesis by blast
qed

text \<open>
  C4 as stated fails for a goal update by a caller who is not the owner: at the
  deadline of a campaign that is not finalized it fails with \<open>NotOwner\<close>, not with
  \<open>CampaignExpired\<close>.
\<close>

theorem C4_goal_update_not_owner_counterexample:
  "msg_sender late \<noteq> owner campaign0
   \<and> \<not> campaignFinalized campaign0
   \<and> unat (deadline campaign0) \<le> unat (block_timestamp late)
   \<and> updateGoal late 2000000000 campaign0 = Inl NotOwner
   \<and> updateGoal late 2000000000 campaign0 \<noteq> Inl CampaignExpired"
  by (simp add: updateGoal_def onlyOwner_def campaign0_def late_def)

subsection \<open>C5: who may decrypt a contributor's record\<close>

text \<open>
  C5 says that no history grants the oracle permission on a contributor's encrypted
  record. The first accepted contribution of a campaign does: the contributed handle is
  stored both as the aggregate and as the sender's record, and the permissions for the
  aggregate, the oracle's among them, are granted on that handle.
\<close>

theorem C5_oracle_may_decrypt_first_record:
  "\<exists>s1. contributeUSDC alice 5000000 (External 1 5000000) ValidProof campaign0 = Inr s1
     \<and> getContributionAmount s1 (msg_sender alice) = Inr (EInput 1 5000000)
     \<and> (H64 (EInput 1 5000000), oracleAddr s1) \<in> acl s1
     \<and> oracleAddr s1 \<noteq> msg_sender alice \<and> oracleAddr s1 \<noteq> owner s1
     \<and> oracleAddr s1 \<noteq> self s1"
proof -
  from alice_first obtain s1
    where s1: "contributeUSDC alice 5000000 (External 1 5000000) ValidProof campaign0 = Inr s1" ..
  have enc: "FHE_fromExternal (External 1 5000000) ValidProof = Some (EInput 1 5000000)" by simp
  note led = contributeUSDC_ledger[OF s1 enc]
  note fr = contributeUSDC_frame[OF s1]
  have t: "totalRaisedEnc s1 = EInput 1 5000000"
    by (simp add: led(2) campaign0_def)
  have r: "getContributionAmount s1 (msg_sender alice) = Inr (EInput 1 5000000)"
    by (simp add: getContributionAmount_def led(3,4) campaign0_def)
  have "(H64 (totalRaisedEnc s1), oracleAddr campaign0) \<in> acl s1"
    unfolding contributeUSDC_acl[OF s1] by simp
  then have g: "(H64 (EInput 1 5000000), oracleAddr s1) \<in> acl s1"
    by (simp add: t fr)
  have d: "oracleAddr s1 \<noteq> msg_sender alice \<and> oracleAddr s1 \<noteq> owner s1
     \<and> oracleAddr s1 \<noteq> self s1"
    by (simp add: fr campaign0_def alice_def)
  from s1 r g d show ?thesis by blast
qed

subsection \<open>C6: grants after a contribution\<close>

text \<open>
  C6, as the code has it. After an accepted contribution the aggregate total carries
  decryption grants for the contract, the owner and the oracle, the goal status carries
  grants for the contract, the owner, the sender and the oracle, and the sender holds a
  grant on their own record. The sender holds a grant on the aggregate handle only if it
  was granted before, or the sender is the contract, the owner or the oracle, or the
  sender's record is the very handle of the aggregate.
\<close>

theorem C6_grants_after_contribution:
  assumes "contributeUSDC e a h p s = Inr s'"
  shows "(H64 (totalRaisedEnc s'), self s') \<in> acl s'
      \<and> (H64 (totalRaisedEnc s'), owner s') \<in> acl s'
      \<and> (H64 (totalRaisedEnc s'), oracleAddr s') \<in> acl s'
      \<and> (HBool (lastGoalReachedCache s'), self s') \<in> acl s'
      \<and> (HBool (lastGoalReachedCache s'), owner s') \<in> acl s'
      \<and> (HBool (lastGoalReachedCache s'), msg_sender e) \<in> acl s'
      \<and> (HBool (lastGoalReachedCache s'), oracleAddr s') \<in> acl s'
      \<and> (H64 (contributionAmounts s' (msg_sender e)), msg_sender e) \<in> acl s'
      \<and> ((H64 (totalRaisedEnc s'), msg_sender e) \<in> acl s' \<longleftrightarrow>
           (H64 (totalRaisedEnc s'), msg_sender e) \<in> acl s
           \<or> msg_sender e = self s' \<or> msg_sender e = owner s' \<or> msg_sender e = oracleAddr s'
           \<or> contributionAmounts s' (msg_sender e) = totalRaisedEnc s')"
  unfolding contributeUSDC_acl[OF assms] contributeUSDC_frame[OF assms]
  by auto

theorem C6_grants_after_contribution_witness:
  "\<exists>s1. contributeUSDC alice 5000000 (External 1 5000000) ValidProof campaign0 = Inr s1
     \<and> (H64 (totalRaisedEnc s1), 100) \<in> acl s1
     \<and> (H64 (totalRaisedEnc s1), 1) \<in> acl s1
     \<and> (H64 (totalRaisedEnc s1), 200) \<in> acl s1
     \<and> (HBool (lastGoalReachedCache s1), 7) \<in> acl s1
     \<and> (HBool (lastGoalReachedCache s1), 200) \<in> acl s1
     \<and> (H64 (contributionAmounts s1 7), 7) \<in> acl s1"
proof -
  from alice_first obtain s1
    where s1: "contributeUSDC alice 5000000 (External 1 5000000) ValidProof campaign0 = Inr s1" ..
  note fr = contributeUSDC_frame[OF s1]
  from C6_grants_after_contribution[OF s1]
  have "(H64 (totalRaisedEnc s1), 100) \<in> acl s1
     \<and> (H64 (totalRaisedEnc s1), 1) \<in> acl s1
     \<and> (H64 (totalRaisedEnc s1), 200) \<in> acl s1
     \<and> (HBool (lastGoalReachedCache s1), 7) \<in> acl s1
     \<and> (HBool (lastGoalReachedCache s1), 200) \<in> acl s1
     \<and> (H64 (contributionAmounts s1 7), 7) \<in> acl s1"
    unfolding fr by (simp add: campaign0_def alice_def)
  with s1 show ?thesis by blast
qed

text \<open>
  C6 as stated fails for the second contributor of a campaign: after their accepted
  contribution they hold no grant on the aggregate handle.
\<close>

theorem C6_sender_not_granted_total_counterexample:
  "\<exists>s1 s2. contributeUSDC alice 5000000 (External 1 5000000) ValidProof campaign0 = Inr s1
     \<and> contributeUSDC bob 7000000 (External 2 7000000) ValidProof s1 = Inr s2
     \<and> (H64 (totalRaisedEnc s2), msg_sender bob) \<notin> acl s2"
proof -
  from alice_then_bob obtain s1 s2
    where s1: "contributeUSDC alice 5000000 (External 1 5000000) ValidProof campaign0 = Inr s1"
      and s2: "contributeUSDC bob 7000000 (External 2 7000000) ValidProof s1 = Inr s2"
    by blast
  have e1: "FHE_fromExternal (External 1 5000000) ValidProof = Some (EInput 1 5000000)" by simp
  have e2: "FHE_fromExternal (External 2 7000000) ValidProof = Some (EInput 2 7000000)" by simp
  note l1 = contributeUSDC_ledger[OF s1 e1]
  note l2 = contributeUSDC_ledger[OF s2 e2]
  note f1 = contributeUSDC_frame[OF s1]
  have t2: "totalRaisedEnc s2 = EAdd (EInput 1 5000000) (EInput 2 7000000)"
    by (simp add: l2(2) l1(1,2) campaign0_def)
  have c2: "contributionAmounts s2 (msg_sender bob) = EInput 2 7000000"
    by (simp add: l2(4) l1(3) campaign0_def bob_def alice_def)
  have a1: "(H64 (totalRaisedEnc s2), msg_sender bob) \<notin> acl s1"
    unfolding contributeUSDC_acl[OF s1]
    by (simp add: t2 l1(2,4) campaign0_def alice_def bob_def)
  have "(H64 (totalRaisedEnc s2), msg_sender bob) \<notin> acl s2"
    unfolding contributeUSDC_acl[OF s2] using a1
    by (simp add: c2 f1, simp add: t2 campaign0_def bob_def)
  with s1 s2 show ?thesis by blast
qed

subsection \<open>C7: counting contributors\<close>

text \<open>
  C7. In a history started where the sender has no record, the sender has a record
  exactly when an earlier contribution of theirs was accepted. An accepted contribution
  of a sender without an earlier accepted one adds one to the contributor count (the
  \<^verbatim>\<open>uint64\<close> addition of the \<^verbatim>\<open>unchecked\<close> block), stores the contributed encrypted
  amount as their record, marks them as contributor and is reported first-time; every
  later accepted contribution of the same sender leaves the count as it is, adds
  homomorphically to their record and is reported as a repeat.
\<close>

theorem C7_contributor_count:
  assumes fresh: "\<not> hasContributedMap s0 (msg_sender e)"
    and ok: "contributeUSDC e a h p (run s0 ts) = Inr s'"
  shows "\<exists>enc. FHE_fromExternal h p = Some enc
      \<and> hasContributedMap (run s0 ts) (msg_sender e) = (0 < acceptedBy (msg_sender e) s0 ts)
      \<and> hasContributedMap s' (msg_sender e)
      \<and> (if acceptedBy (msg_sender e) s0 ts = 0
         then contributorCount s' = contributorCount (run s0 ts) + 1
            \<and> contributionAmounts s' (msg_sender e) = enc
            \<and> last (eventLog s') = Contributed (msg_sender e) True (block_timestamp e)
         else contributorCount s' = contributorCount (run s0 ts)
            \<and> contributionAmounts s' (msg_sender e)
                = FHE_add (contributionAmounts (run s0 ts) (msg_sender e)) enc
            \<and> last (eventLog s') = Contributed (msg_sender e) False (block_timestamp e))"
proof -
  from contributeUSDC_InrD(6)[OF ok] obtain enc where enc: "FHE_fromExternal h p = Some enc" ..
  have seen: "hasContributedMap (run s0 ts) (msg_sender e) = (0 < acceptedBy (msg_sender e) s0 ts)"
    using fresh by (simp add: run_hasContributedMap)
  note led = contributeUSDC_ledger[OF ok enc]
  have "hasContributedMap s' (msg_sender e)"
    by (simp add: led(3))
  moreover have "acceptedBy (msg_sender e) s0 ts = 0 \<Longrightarrow>
      contributorCount s' = contributorCount (run s0 ts) + 1
      \<and> contributionAmounts s' (msg_sender e) = enc
      \<and> last (eventLog s') = Contributed (msg_sender e) True (block_timestamp e)"
    using seen by (simp add: led(4,5,6))
  moreover have "acceptedBy (msg_sender e) s0 ts \<noteq> 0 \<Longrightarrow>
      contributorCount s' = contributorCount (run s0 ts)
      \<and> contributionAmounts s' (msg_sender e)
          = FHE_add (contributionAmounts (run s0 ts) (msg_sender e)) enc
      \<and> last (eventLog s') = Contributed (msg_sender e) False (block_timestamp e)"
    using seen by (simp add: led(4,5,6) FHE_add_def)
  ultimately show ?thesis using enc seen by auto
qed

theorem C7_contributor_count_witness:
  "(\<exists>s1. contributeUSDC alice 5000000 (External 1 5000000) ValidProof (run campaign0 []) = Inr s1
      \<and> contributorCount s1 = 1 \<and> contributionAmounts s1 7 = EInput 1 5000000
      \<and> last (eventLog s1) = Contributed 7 True 2000)
   \<and> (\<exists>s2. contributeUSDC alice 6000000 (External 3 6000000) ValidProof
             (run campaign0 [(alice, alicePays)]) = Inr s2
      \<and> contributorCount s2 = contributorCount (run campaign0 [(alice, alicePays)])
      \<and> last (eventLog s2) = Contributed 7 False 2000)"
proof
  obtain s1 where ok: "contributeUSDC alice 5000000 (External 1 5000000) ValidProof
      (run campaign0 []) = Inr s1"
    using alice_first by auto
  have fresh: "\<not> hasContributedMap campaign0 (msg_sender alice)" by (simp add: campaign0_def)
  from C7_contributor_count[OF fresh ok]
  have "contributorCount s1 = 1 \<and> contributionAmounts s1 7 = EInput 1 5000000
      \<and> last (eventLog s1) = Contributed 7 True 2000"
    by (simp add: campaign0_def alice_def)
  with ok show "\<exists>s1. contributeUSDC alice 5000000 (External 1 5000000) ValidProof
      (run campaign0 []) = Inr s1
      \<and> contributorCount s1 = 1 \<and> contributionAmounts s1 7 = EInput 1 5000000
      \<and> last (eventLog s1) = Contributed 7 True 2000" by blast
next
  obtain s2 where ok: "contributeUSDC alice 6000000 (External 3 6000000) ValidProof
           (run campaign0 [(alice, alicePays)]) = Inr s2"
    using alice_again ..
  have fresh: "\<not> hasContributedMap campaign0 (msg_sender alice)" by (simp add: campaign0_def)
  have n: "acceptedBy (msg_sender alice) campaign0 [(alice, alicePays)] = 1"
    using alice_accepted by simp
  from C7_contributor_count[OF fresh ok]
  have "contributorCount s2 = contributorCount (run campaign0 [(alice, alicePays)])
      \<and> last (eventLog s2) = Contributed 7 False 2000"
    unfolding n by (simp add: alice_def)
  with ok show "\<exists>s2. contributeUSDC alice 6000000 (External 3 6000000) ValidProof
             (run campaign0 [(alice, alicePays)]) = Inr s2
      \<and> contributorCount s2 = contributorCount (run campaign0 [(alice, alicePays)])
      \<and> last (eventLog s2) = Contributed 7 False 2000" by blast
qed

subsection \<open>C8: the cached goal status\<close>

text \<open>
  C8. Recomputing the goal status caches an encrypted false when the aggregate is
  uninitialized and otherwise the homomorphic comparison of the aggregate with the
  encoded goal. The cache after an accepted contribution and after a goal update is the
  recomputation on the updated storage, and it decrypts to true exactly when the
  decrypted aggregate (zero when uninitialized) is at least the goal; the same holds
  after every history of a deployed campaign.
\<close>

theorem C8_goal_status:
  "lastGoalReachedCache (updateGoalStatus e s) =
      (if \<not> totalInitialized s then FHE_asEbool False
       else FHE_ge (totalRaisedEnc s) (FHE_asEuint64 (fundingGoal s)))
   \<and> (contributeUSDC e a h p s = Inr s' \<longrightarrow>
        lastGoalReachedCache s' = lastGoalReachedCache (updateGoalStatus e s')
        \<and> lastGoalReachedCache s' = FHE_ge (totalRaisedEnc s') (FHE_asEuint64 (fundingGoal s'))
        \<and> decryptBool (lastGoalReachedCache s') = (fundingGoal s' \<le> decryptedTotal s'))
   \<and> (updateGoal e g s = Inr s' \<longrightarrow>
        fundingGoal s' = g
        \<and> lastGoalReachedCache s' = lastGoalReachedCache (updateGoalStatus e s')
        \<and> decryptBool (lastGoalReachedCache s') = (fundingGoal s' \<le> decryptedTotal s'))
   \<and> (constructor e0 this orc g0 d mn mx u t = Inr s0 \<longrightarrow>
        decryptBool (lastGoalReachedCache (run s0 ts))
          = (fundingGoal (run s0 ts) \<le> decryptedTotal (run s0 ts)))"
proof (intro conjI impI)
  show "lastGoalReachedCache (updateGoalStatus e s) =
      (if \<not> totalInitialized s then FHE_asEbool False
       else FHE_ge (totalRaisedEnc s) (FHE_asEuint64 (fundingGoal s)))"
    by (simp add: updateGoalStatus_cache fhe_defs)
next
  assume ok: "contributeUSDC e a h p s = Inr s'"
  from contributeUSDC_InrD(6)[OF ok] obtain enc where enc: "FHE_fromExternal h p = Some enc" ..
  have i: "totalInitialized s'" by (rule contributeUSDC_ledger(1)[OF ok enc])
  show "lastGoalReachedCache s' = lastGoalReachedCache (updateGoalStatus e s')"
    by (simp add: updateGoalStatus_cache i contributeUSDC_cache(1)[OF ok])
  show "lastGoalReachedCache s' = FHE_ge (totalRaisedEnc s') (FHE_asEuint64 (fundingGoal s'))"
    by (simp add: contributeUSDC_cache(1)[OF ok] fhe_defs)
  show "decryptBool (lastGoalReachedCache s') = (fundingGoal s' \<le> decryptedTotal s')"
    by (rule contributeUSDC_cache(2)[OF ok])
next
  assume ok: "updateGoal e g s = Inr s'"
  show "fundingGoal s' = g" by (rule updateGoal_cache(1)[OF ok])
  show "lastGoalReachedCache s' = lastGoalReachedCache (updateGoalStatus e s')"
    by (simp add: updateGoalStatus_cache updateGoal_cache(5)[OF ok])
  show "decryptBool (lastGoalReachedCache s') = (fundingGoal s' \<le> decryptedTotal s')"
    by (rule updateGoal_decrypt[OF ok])
next
  assume "constructor e0 this orc g0 d mn mx u t = Inr s0"
  then have "goalKept s0" by (rule constructor_goalKept)
  then have "goalKept (run s0 ts)" by (rule run_goalKept)
  then show "decryptBool (lastGoalReachedCache (run s0 ts))
          = (fundingGoal (run s0 ts) \<le> decryptedTotal (run s0 ts))"
    by (simp add: goalKept_def)
qed

theorem C8_goal_status_witness:
  "\<exists>s1 s2 s3. contributeUSDC alice 400000000 (External 1 400000000) ValidProof wideCampaign = Inr s1
     \<and> \<not> decryptBool (lastGoalReachedCache s1)
     \<and> contributeUSDC bob 700000000 (External 2 700000000) ValidProof s1 = Inr s2
     \<and> decryptedTotal s2 = 1100000000
     \<and> decryptBool (lastGoalReachedCache s2)
     \<and> updateGoal ownerEarly 2000000000 s2 = Inr s3
     \<and> fundingGoal s3 = 2000000000
     \<and> lastGoalReachedCache s3 = BGe (totalRaisedEnc s2) (EPlain 2000000000)
     \<and> \<not> decryptBool (lastGoalReachedCache s3)
     \<and> \<not> decryptBool (lastGoalReachedCache (run wideCampaign []))
     \<and> decryptBool (lastGoalReachedCache (run wideCampaign
          [(alice, ContributeUSDC 400000000 (External 1 400000000) ValidProof),
           (ownerEarly, UpdateGoal 300000000)]))"
proof -
  have "\<exists>s1. contributeUSDC alice 400000000 (External 1 400000000) ValidProof wideCampaign = Inr s1"
    unfolding contributeUSDC_accept_iff
    by (simp add: campaignActive_def wideCampaign_def campaign0_def alice_def)
  then obtain s1
    where s1: "contributeUSDC alice 400000000 (External 1 400000000) ValidProof wideCampaign = Inr s1" ..
  note fr = contributeUSDC_frame[OF s1]
  have "\<exists>s2. contributeUSDC bob 700000000 (External 2 700000000) ValidProof s1 = Inr s2"
    unfolding contributeUSDC_accept_iff
    by (simp add: campaignActive_def fr, simp add: wideCampaign_def campaign0_def bob_def)
  then obtain s2
    where s2: "contributeUSDC bob 700000000 (External 2 700000000) ValidProof s1 = Inr s2" ..
  note fr2 = contributeUSDC_frame[OF s2]
  have z: "decryptedTotal wideCampaign = 0"
    by (simp add: decryptedTotal_def wideCampaign_def campaign0_def)
  have t1: "decryptedTotal s1 = 400000000"
    using contributeUSDC_decryptedTotal[OF s1] z by simp
  have t2: "decryptedTotal s2 = 1100000000"
    using contributeUSDC_decryptedTotal[OF s2] t1 by simp
  have g: "fundingGoal s1 = 1000000000" "fundingGoal s2 = 1000000000"
    by (simp_all add: fr2 fr wideCampaign_def campaign0_def)
  have i2: "totalInitialized s2"
    using contributeUSDC_ledger(1)[OF s2, of "EInput 2 700000000"] by simp
  have i1: "totalInitialized s1"
    using contributeUSDC_ledger(1)[OF s1, of "EInput 1 400000000"] by simp
  from C8_goal_status[where e = alice and a = 400000000 and h = "External 1 400000000"
      and p = ValidProof and s = wideCampaign and s' = s1,
      THEN conjunct2, THEN conjunct1, THEN mp, OF s1,
      THEN conjunct2, THEN conjunct2]
  have c1: "\<not> decryptBool (lastGoalReachedCache s1)"
    by (simp add: t1 g)
  from C8_goal_status[where e = bob and a = 700000000 and h = "External 2 700000000"
      and p = ValidProof and s = s1 and s' = s2,
      THEN conjunct2, THEN conjunct1, THEN mp, OF s2,
      THEN conjunct2, THEN conjunct2]
  have c2: "decryptBool (lastGoalReachedCache s2)"
    by (simp add: t2 g)
  have a2: "campaignActive ownerEarly s2 = None" "msg_sender ownerEarly = owner s2"
    by (simp_all add: campaignActive_def fr2 fr,
        simp_all add: wideCampaign_def campaign0_def ownerEarly_def)
  then have "\<exists>s3. updateGoal ownerEarly 2000000000 s2 = Inr s3"
    by (simp add: updateGoal_guard)
  then obtain s3 where s3: "updateGoal ownerEarly 2000000000 s2 = Inr s3" ..
  note u3 = updateGoal_cache[OF s3]
  have "decryptedTotal s3 = decryptedTotal s2"
    by (simp add: decryptedTotal_def u3(3,4))
  with t2 have t3: "decryptedTotal s3 = 1100000000"
    by (simp only:)
  have h3: "lastGoalReachedCache s3 = BGe (totalRaisedEnc s2) (EPlain 2000000000)"
    by (simp add: u3(5) u3(1,3,4) i2)
  note g3 = C8_goal_status[where e = ownerEarly and g = 2000000000 and s = s2 and s' = s3,
      THEN conjunct2, THEN conjunct2, THEN conjunct1, THEN mp, OF s3]
  from g3[THEN conjunct1] have c3a: "fundingGoal s3 = 2000000000" .
  from g3[THEN conjunct2, THEN conjunct2]
  have c3b: "\<not> decryptBool (lastGoalReachedCache s3)"
    by (simp add: t3 c3a)
  note c3 = c3a c3b
  from C8_goal_status[where ?s0.0 = wideCampaign and ts = "[]",
      THEN conjunct2, THEN conjunct2, THEN conjunct2, THEN mp, OF constructor_wideCampaign]
  have c0: "\<not> decryptBool (lastGoalReachedCache (run wideCampaign []))"
    by (simp add: z, simp add: wideCampaign_def campaign0_def)
  have a1: "campaignActive ownerEarly s1 = None" "msg_sender ownerEarly = owner s1"
    by (simp_all add: campaignActive_def fr,
        simp_all add: wideCampaign_def campaign0_def ownerEarly_def)
  then have "\<exists>s4. updateGoal ownerEarly 300000000 s1 = Inr s4"
    by (simp add: updateGoal_guard)
  then obtain s4 where s4: "updateGoal ownerEarly 300000000 s1 = Inr s4" ..
  note u4 = updateGoal_cache[OF s4]
  have r: "run wideCampaign
          [(alice, ContributeUSDC 400000000 (External 1 400000000) ValidProof),
           (ownerEarly, UpdateGoal 300000000)] = s4"
  proof -
    have st1: "step wideCampaign
        (alice, ContributeUSDC 400000000 (External 1 400000000) ValidProof) = s1"
      using s1 by (simp add: step_def commit_def)
    have st2: "step s1 (ownerEarly, UpdateGoal 300000000) = s4"
      using s4 by (simp add: step_def commit_def)
    show ?thesis by (simp only: run.simps st1 st2)
  qed
  have "decryptedTotal s4 = decryptedTotal s1"
    by (simp add: decryptedTotal_def u4(3,4))
  with t1 have t4: "decryptedTotal s4 = 400000000"
    by (simp only:)
  from C8_goal_status[where ?s0.0 = wideCampaign
      and ts = "[(alice, ContributeUSDC 400000000 (External 1 400000000) ValidProof),
           (ownerEarly, UpdateGoal 300000000)]",
      THEN conjunct2, THEN conjunct2, THEN conjunct2, THEN mp, OF constructor_wideCampaign]
  have c4: "decryptBool (lastGoalReachedCache (run wideCampaign
          [(alice, ContributeUSDC 400000000 (External 1 400000000) ValidProof),
           (ownerEarly, UpdateGoal 300000000)]))"
    unfolding r by (simp add: t4 u4(1))
  from s1 s2 s3 t2 c1 c2 c3 h3 c0 c4 show ?thesis by blast
qed

subsection \<open>C9: the goal-met flag of the campaign-ended event\<close>

text \<open>
  C9 says that the flag of the campaign-ended event is true exactly when the decrypted
  aggregate is at least the goal. \<^verbatim>\<open>finalizeCampaign\<close> emits the initialized flag
  instead: after one contribution of 5 USDC towards a goal of 1000 USDC the event says
  that the goal was met.
\<close>

theorem C9_goal_met_flag_without_goal:
  "\<exists>s1 s2. contributeUSDC alice 5000000 (External 1 5000000) ValidProof campaign0 = Inr s1
     \<and> finalizeCampaign late s1 = Inr s2
     \<and> last (eventLog s2) = CampaignEnded True 2593000
     \<and> decryptedTotal s2 = 5000000 \<and> fundingGoal s2 = 1000000000
     \<and> \<not> fundingGoal s2 \<le> decryptedTotal s2"
proof -
  from alice_first obtain s1
    where s1: "contributeUSDC alice 5000000 (External 1 5000000) ValidProof campaign0 = Inr s1" ..
  have enc: "FHE_fromExternal (External 1 5000000) ValidProof = Some (EInput 1 5000000)" by simp
  note led = contributeUSDC_ledger[OF s1 enc]
  note fr = contributeUSDC_frame[OF s1]
  let ?s2 = "s1\<lparr>campaignFinalized := True,
      eventLog := eventLog s1 @ [CampaignEnded (totalInitialized s1) (block_timestamp late)]\<rparr>"
  have f: "finalizeCampaign late s1 = Inr ?s2"
    unfolding finalizeCampaign_Inr_iff by (simp add: fr campaign0_def late_def)
  have ev: "last (eventLog ?s2) = CampaignEnded True 2593000"
    by (simp add: led(1) late_def)
  have "decryptedTotal s1 = 5000000"
    using contributeUSDC_decryptedTotal[OF s1]
    by (simp add: decryptedTotal_def campaign0_def)
  moreover have "decryptedTotal ?s2 = decryptedTotal s1"
    by (simp add: decryptedTotal_def)
  ultimately have dt: "decryptedTotal ?s2 = 5000000"
    by (simp only:)
  have g: "fundingGoal ?s2 = 1000000000" by (simp add: fr campaign0_def)
  have "\<not> fundingGoal ?s2 \<le> decryptedTotal ?s2" unfolding dt g by simp
  with s1 f ev dt g show ?thesis by blast
qed

subsection \<open>C10: extending the deadline of an expired campaign\<close>

text \<open>
  C10, as the code has it. In every storage that is not finalized, expired or not, a
  call of \<^verbatim>\<open>extendDeadline\<close> by the owner with a positive number of days succeeds,
  provided the new deadline fits \<^verbatim>\<open>uint64\<close>, and adds that many days to the deadline. At
  every time before the new deadline the campaign is active again and accepts every
  contribution that passes the checks on the amount, the transfer and the proof.
\<close>

theorem C10_extend_reactivates:
  assumes "msg_sender e = owner s" and "\<not> campaignFinalized s" and "d \<noteq> 0"
    and "unat (deadline s) + unat d * one_day < 2 ^ 64"
  shows "\<exists>s'. extendDeadline e d s = Inr s'
      \<and> unat (deadline s') = unat (deadline s) + unat d * one_day
      \<and> \<not> campaignFinalized s'
      \<and> isActive e2 s' = (unat (block_timestamp e2) < unat (deadline s'))
      \<and> (unat (block_timestamp e2) < unat (deadline s') \<longrightarrow>
           campaignActive e2 s' = None
           \<and> ((\<exists>x. contributeUSDC e2 a h p s' = Inr x) \<longleftrightarrow>
                0 < a \<and> unat (minContribution s) \<le> unat a \<and> unat a \<le> unat (maxContribution s)
                \<and> usdc_transferFrom e2 (msg_sender e2) (treasury s) a
                \<and> (\<exists>enc. FHE_fromExternal h p = Some enc)))"
proof -
  let ?s' = "s\<lparr>deadline := deadline s + d * of_nat one_day,
            eventLog := eventLog s @ [DeadlineExtended (deadline s) (deadline s + d * of_nat one_day)]\<rparr>"
  have ok: "extendDeadline e d s = Inr ?s'" by (rule extendDeadline_Inr[OF assms])
  have dl: "unat (deadline ?s') = unat (deadline s) + unat d * one_day"
    using unat_extended[OF assms(4)] by simp
  have nf: "\<not> campaignFinalized ?s'" using assms(2) by simp
  have act: "isActive e2 ?s' = (unat (block_timestamp e2) < unat (deadline ?s'))"
    using assms(2) by (simp add: isActive_def)
  have ca: "campaignActive e2 ?s' = None" if "unat (block_timestamp e2) < unat (deadline ?s')"
    using that assms(2) by (simp add: campaignActive_def)
  have acc: "(\<exists>x. contributeUSDC e2 a h p ?s' = Inr x) \<longleftrightarrow>
                0 < a \<and> unat (minContribution s) \<le> unat a \<and> unat a \<le> unat (maxContribution s)
                \<and> usdc_transferFrom e2 (msg_sender e2) (treasury s) a
                \<and> (\<exists>enc. FHE_fromExternal h p = Some enc)"
    if "unat (block_timestamp e2) < unat (deadline ?s')"
    unfolding contributeUSDC_accept_iff using ca[OF that] by simp
  show ?thesis
    by (intro exI[of _ ?s'] conjI impI) (fact ok dl nf act | erule ca | erule acc)+
qed

theorem C10_extend_reactivates_witness:
  "\<not> isActive ownerLate campaign0
   \<and> contributeUSDC ownerLate 5000000 (External 1 5000000) ValidProof campaign0
       = Inl CampaignExpired
   \<and> (\<exists>s'. extendDeadline ownerLate 1 campaign0 = Inr s'
        \<and> unat (deadline s') = 2679400
        \<and> isActive ownerLate s'
        \<and> (\<exists>x. contributeUSDC ownerLate 5000000 (External 1 5000000) ValidProof s' = Inr x))"
proof -
  have h: "msg_sender ownerLate = owner campaign0" "\<not> campaignFinalized campaign0"
    "(1 :: uint64) \<noteq> 0" "unat (deadline campaign0) + unat (1 :: uint64) * one_day < 2 ^ 64"
    by (simp_all add: ownerLate_def campaign0_def one_day_def)
  have 1: "\<not> isActive ownerLate campaign0"
    by (simp add: isActive_def ownerLate_def campaign0_def)
  have 2: "contributeUSDC ownerLate 5000000 (External 1 5000000) ValidProof campaign0
       = Inl CampaignExpired"
    by (rule contributeUSDC_guard) (simp add: campaignActive_def ownerLate_def campaign0_def)
  from C10_extend_reactivates[OF h, of ownerLate 5000000 "External 1 5000000" ValidProof]
  obtain s' where "extendDeadline ownerLate 1 campaign0 = Inr s'"
    and d: "unat (deadline s') = unat (deadline campaign0) + unat (1 :: uint64) * one_day"
    and a: "isActive ownerLate s' = (unat (block_timestamp ownerLate) < unat (deadline s'))"
    and c: "unat (block_timestamp ownerLate) < unat (deadline s') \<longrightarrow>
           campaignActive ownerLate s' = None
           \<and> ((\<exists>x. contributeUSDC ownerLate 5000000 (External 1 5000000) ValidProof s' = Inr x) \<longleftrightarrow>
                0 < (5000000 :: uint256) \<and> unat (minContribution campaign0) \<le> unat (5000000 :: uint256)
                \<and> unat (5000000 :: uint256) \<le> unat (maxContribution campaign0)
                \<and> usdc_transferFrom ownerLate (msg_sender ownerLate) (treasury campaign0) 5000000
                \<and> (\<exists>enc. FHE_fromExternal (External 1 5000000) ValidProof = Some enc))"
    by blast
  have d': "unat (deadline s') = 2679400"
    using d by (simp add: campaign0_def one_day_def)
  have lt: "unat (block_timestamp ownerLate) < unat (deadline s')"
    unfolding d' by (simp add: ownerLate_def)
  have a': "isActive ownerLate s'" using a lt by simp
  have "\<exists>x. contributeUSDC ownerLate 5000000 (External 1 5000000) ValidProof s' = Inr x"
    using c lt by (simp add: campaign0_def ownerLate_def)
  with 1 2 \<open>extendDeadline ownerLate 1 campaign0 = Inr s'\<close> d' a' show ?thesis by blast
qed

text \<open>
  C10 as stated fails for a number of days whose seconds do not fit \<^verbatim>\<open>uint64\<close>: the
  checked multiplication reverts.
\<close>

theorem C10_extend_overflow_counterexample:
  "msg_sender ownerLate = owner campaign0 \<and> \<not> campaignFinalized campaign0
   \<and> (18446744073709551615 :: uint64) \<noteq> 0
   \<and> extendDeadline ownerLate 18446744073709551615 campaign0 = Inl Panic"
  by (simp add: extendDeadline_def onlyOwner_def ownerLate_def campaign0_def one_day_def)

section \<open>Further properties\<close>

subsection \<open>The configuration of a deployed campaign\<close>

text \<open>
  In every history of a deployed campaign the minimum contribution is positive and at
  most the maximum, the goal is positive, the deadline is never earlier than the one set
  at deployment, and owner, token and treasury are the ones of the deployment.
\<close>

theorem X1_campaign_invariant:
  assumes "constructor e this orc g d mn mx u t = Inr s0"
  shows "minContribution (run s0 ts) \<noteq> 0
      \<and> unat (minContribution (run s0 ts)) \<le> unat (maxContribution (run s0 ts))
      \<and> fundingGoal (run s0 ts) \<noteq> 0
      \<and> unat (deadline s0) \<le> unat (deadline (run s0 ts))
      \<and> owner (run s0 ts) = msg_sender e
      \<and> usdc (run s0 ts) = u \<and> treasury (run s0 ts) = t"
proof -
  note c = constructor_InrD[OF assms]
  have f: "owner s0 = msg_sender e" "usdc s0 = u" "treasury s0 = t"
    "minContribution s0 = mn" "maxContribution s0 = mx"
    unfolding c(4) by simp_all
  from constructor_goalKept[OF assms] have "goalKept (run s0 ts)" by (rule run_goalKept)
  then have g: "fundingGoal (run s0 ts) \<noteq> 0" by (simp add: goalKept_def)
  note r = run_invariant[of s0 ts]
  from r have "unat (deadline s0) \<le> unat (deadline (run s0 ts))" by (rule conjunct1)
  moreover from r f have "owner (run s0 ts) = msg_sender e" "usdc (run s0 ts) = u"
    "treasury (run s0 ts) = t" "minContribution (run s0 ts) = mn"
    "maxContribution (run s0 ts) = mx"
    by simp_all
  ultimately show ?thesis using g c(2,3) by simp
qed

theorem X1_campaign_invariant_witness:
  "minContribution (run campaign0 [(ownerLate, ExtendDeadline 1), (alice, alicePays)]) \<noteq> 0
   \<and> fundingGoal (run campaign0 [(ownerLate, ExtendDeadline 1), (alice, alicePays)]) \<noteq> 0
   \<and> unat (deadline campaign0)
       \<le> unat (deadline (run campaign0 [(ownerLate, ExtendDeadline 1), (alice, alicePays)]))
   \<and> owner (run campaign0 [(ownerLate, ExtendDeadline 1), (alice, alicePays)]) = 1"
proof -
  have "msg_sender deployer = 1" by (simp add: deployer_def)
  with X1_campaign_invariant[OF constructor_campaign0,
      of "[(ownerLate, ExtendDeadline 1), (alice, alicePays)]"]
  show ?thesis by (simp only:) simp
qed

subsection \<open>Queries before the first contribution\<close>

text \<open>
  \<^verbatim>\<open>getTotalRaised\<close> fails with \<open>NoContributions\<close> exactly while the aggregate is
  uninitialized, and the goal status of a fresh campaign decrypts to false.
\<close>

theorem X2_total_query_before_first_contribution:
  "getTotalRaised s = (if totalInitialized s then Inr (totalRaisedEnc s) else Inl NoContributions)
   \<and> getTotalRaised campaign0 = Inl NoContributions
   \<and> \<not> decryptBool (getLastGoalStatus campaign0)"
  by (simp add: getTotalRaised_def hasTotalInitialized_def getLastGoalStatus_def campaign0_def)

subsection \<open>Stated and encrypted amount\<close>

text \<open>
  \<^verbatim>\<open>contributeUSDC\<close> does not compare the encrypted amount with the stated one: a
  contribution that transfers 5 USDC and encrypts 1 USDC is accepted, and the aggregate
  then decrypts to 1 USDC.
\<close>

theorem X3_encrypted_amount_not_bound_to_stated_amount:
  "\<exists>s1. exec alice aliceUnderstates campaign0 = Inr s1
     \<and> usdcTransfers s1 = [(7, 400, 5000000)]
     \<and> decryptedTotal s1 = 1000000"
proof -
  have "\<exists>s1. contributeUSDC alice 5000000 (External 1 1000000) ValidProof campaign0 = Inr s1"
    unfolding contributeUSDC_accept_iff
    by (simp add: campaignActive_def campaign0_def alice_def)
  then obtain s1
    where s1: "contributeUSDC alice 5000000 (External 1 1000000) ValidProof campaign0 = Inr s1" ..
  have enc: "FHE_fromExternal (External 1 1000000) ValidProof = Some (EInput 1 1000000)" by simp
  have "usdcTransfers s1 = [(7, 400, 5000000)]"
    by (simp add: contributeUSDC_ledger(7)[OF s1 enc] campaign0_def alice_def)
  moreover have "decryptedTotal s1 = 1000000"
    using contributeUSDC_decryptedTotal[OF s1] by (simp add: decryptedTotal_def campaign0_def)
  ultimately show ?thesis using s1 by (simp add: aliceUnderstates_def)
qed

end
